theory Spec2Isabelle
  imports Complex_Main
begin

section \<open>Guest stay accounts: the read model\<close>

text \<open>
  A JavaScript \<^verbatim>\<open>Date\<close> is a number of milliseconds since the epoch; the model keeps
  that number. Identifiers are strings.
\<close>

type_synonym Date = int

text \<open>
  The events of a guest stay account. The union type is declared in
  \<^verbatim>\<open>guestStayAccount.ts\<close>; the constructors carry, in this order, the fields of
  \<^verbatim>\<open>data\<close> that \<^verbatim>\<open>guestStayDetails.ts\<close> and \<^verbatim>\<open>api.ts\<close> read:
  \<^item> \<open>GuestCheckedIn guestStayAccountId guestId roomId checkedInAt\<close>
  \<^item> \<open>ChargeRecorded chargeId amount\<close>
  \<^item> \<open>PaymentRecorded paymentId amount\<close>
  \<^item> \<open>GuestCheckedOut checkedOutAt\<close>
  \<^item> \<open>GuestCheckoutFailed reason\<close>

  The type \<open>'n\<close> stands for the amounts (\<^verbatim>\<open>number\<close> in the source).
\<close>

datatype 'n GuestStayAccountEvent =
    GuestCheckedIn string string string Date
  | ChargeRecorded string 'n
  | PaymentRecorded string 'n
  | GuestCheckedOut Date
  | GuestCheckoutFailed string

text \<open>
  \<^verbatim>\<open>GuestStayDetails = NotExisting | CheckedIn\<close>. The second variant is the stored
  document; its \<^verbatim>\<open>status\<close> is \<^verbatim>\<open>'CheckedIn' | 'CheckedOut'\<close>. The fields
  \<^verbatim>\<open>_id\<close> and \<^verbatim>\<open>_version\<close> are written \<open>doc_id\<close> and \<open>doc_version\<close>; the two
  optional fields are options. A transaction \<^verbatim>\<open>{ id, amount }\<close> is a pair.
\<close>

datatype Status = CheckedIn | CheckedOut

record 'n CheckedIn_body =
  doc_id :: string
  guestId :: string
  roomId :: string
  status :: Status
  balance :: 'n
  transactionsCount :: int
  transactions :: "(string \<times> 'n) list"
  checkedInAt :: Date
  checkedOutAt :: "Date option"

record 'n CheckedIn_document = "'n CheckedIn_body" +
  doc_version :: "int option"

datatype 'n GuestStayDetails = NotExisting | Stay "'n CheckedIn_document"

definition initialState :: "'n GuestStayDetails" where
  "initialState = NotExisting"

text \<open>
  \<^verbatim>\<open>evolve\<close> of \<^verbatim>\<open>guestStayDetails.ts\<close>: a switch on the event type, each case a test
  of the state's status. The spread \<^verbatim>\<open>{ ...state, f: v }\<close> is a record update. The
  \<^verbatim>\<open>default\<close> branch, which returns the state, is for an event type outside the union;
  the union has the five types and no other.
\<close>

fun evolve :: "'n::{zero,plus,minus} GuestStayDetails \<Rightarrow> 'n GuestStayAccountEvent \<Rightarrow> 'n GuestStayDetails" where
  "evolve state (GuestCheckedIn guestStayAccountId gId rId t) =
     (case state of
        NotExisting \<Rightarrow>
          Stay \<lparr> doc_id = guestStayAccountId, guestId = gId, roomId = rId,
                 status = CheckedIn, balance = 0, transactionsCount = 0,
                 transactions = [], checkedInAt = t, checkedOutAt = None,
                 doc_version = None \<rparr>
      | Stay d \<Rightarrow> state)"
| "evolve state (ChargeRecorded chargeId amount) =
     (case state of
        NotExisting \<Rightarrow> state
      | Stay d \<Rightarrow>
          if status d = CheckedIn
          then Stay (d \<lparr> balance := balance d - amount,
                          transactionsCount := transactionsCount d + 1,
                          transactions := transactions d @ [(chargeId, amount)] \<rparr>)
          else state)"
| "evolve state (PaymentRecorded paymentId amount) =
     (case state of
        NotExisting \<Rightarrow> state
      | Stay d \<Rightarrow>
          if status d = CheckedIn
          then Stay (d \<lparr> balance := balance d + amount,
                          transactionsCount := transactionsCount d + 1,
                          transactions := transactions d @ [(paymentId, amount)] \<rparr>)
          else state)"
| "evolve state (GuestCheckedOut t) =
     (case state of
        NotExisting \<Rightarrow> state
      | Stay d \<Rightarrow>
          if status d = CheckedIn
          then Stay (d \<lparr> status := CheckedOut, checkedOutAt := Some t \<rparr>)
          else state)"
| "evolve state (GuestCheckoutFailed reason) = state"

text \<open>
  The fold of \<^verbatim>\<open>evolve\<close> over the events of one stream, in commit order, from
  \<^verbatim>\<open>initialState()\<close>: the two functions \<^verbatim>\<open>guestStayDetailsProjection\<close> is built from.
\<close>

definition project :: "'n::{zero,plus,minus} GuestStayAccountEvent list \<Rightarrow> 'n GuestStayDetails" where
  "project events = foldl evolve initialState events"

text \<open>Vocabulary for the statements: the status string of a state, and the parts of a stream.\<close>

definition isCheckedIn :: "'n GuestStayDetails \<Rightarrow> bool" where
  "isCheckedIn state = (case state of NotExisting \<Rightarrow> False | Stay d \<Rightarrow> status d = CheckedIn)"

fun isTransaction :: "'n GuestStayAccountEvent \<Rightarrow> bool" where
  "isTransaction (ChargeRecorded chargeId amount) = True"
| "isTransaction (PaymentRecorded paymentId amount) = True"
| "isTransaction e = False"

fun charges :: "'n GuestStayAccountEvent list \<Rightarrow> 'n list" where
  "charges [] = []"
| "charges (ChargeRecorded chargeId amount # es) = amount # charges es"
| "charges (e # es) = charges es"

fun payments :: "'n GuestStayAccountEvent list \<Rightarrow> 'n list" where
  "payments [] = []"
| "payments (PaymentRecorded paymentId amount # es) = amount # payments es"
| "payments (e # es) = payments es"

fun entries :: "'n GuestStayAccountEvent list \<Rightarrow> (string \<times> 'n) list" where
  "entries [] = []"
| "entries (ChargeRecorded chargeId amount # es) = (chargeId, amount) # entries es"
| "entries (PaymentRecorded paymentId amount # es) = (paymentId, amount) # entries es"
| "entries (e # es) = entries es"

text \<open>
  The balance as lines 49 and 62 of \<^verbatim>\<open>guestStayDetails.ts\<close> compute it over a stream, one
  event after the other: a charge is subtracted from the balance so far, a payment is
  added to it. \<open>amounts_sum\<close> is the sum of a list of amounts, taken from the left.
\<close>

fun running_balance :: "'n::{zero,plus,minus} \<Rightarrow> 'n GuestStayAccountEvent list \<Rightarrow> 'n" where
  "running_balance b [] = b"
| "running_balance b (ChargeRecorded chargeId amount # es) = running_balance (b - amount) es"
| "running_balance b (PaymentRecorded paymentId amount # es) = running_balance (b + amount) es"
| "running_balance b (e # es) = running_balance b es"

definition amounts_sum :: "'n::{zero,plus} list \<Rightarrow> 'n" where
  "amounts_sum amounts = foldl (+) 0 amounts"

section \<open>The write model\<close>

text \<open>
  Modelled from the spec: the account state and its \<^verbatim>\<open>evolve\<close> are declared in
  \<^verbatim>\<open>guestStayAccount.ts\<close>, which is not among the sources. Section 3 of the spec
  gives the state as a tagged variant, \<^verbatim>\<open>NotExisting\<close>,
  \<^verbatim>\<open>Opened { guestId, roomId, checkedInAt, balance }\<close> and
  \<^verbatim>\<open>CheckedOut { ...Opened fields, checkedOutAt }\<close>; section 4.1 gives
  \<^verbatim>\<open>evolve\<close>: one case per event kind, charges subtract from the balance and payments
  add to it, an event that does not apply to the state variant leaves the state
  unchanged, and \<^verbatim>\<open>GuestCheckoutFailed\<close> leaves it unchanged always.
\<close>

datatype 'n GuestStayAccount =
    Account_NotExisting
  | Opened string string Date 'n
  | Account_CheckedOut string string Date 'n Date

fun account_evolve :: "'n::{zero,plus,minus} GuestStayAccount \<Rightarrow> 'n GuestStayAccountEvent \<Rightarrow> 'n GuestStayAccount" where
  "account_evolve Account_NotExisting (GuestCheckedIn guestStayAccountId gId rId t) = Opened gId rId t 0"
| "account_evolve (Opened gId rId t b) (ChargeRecorded chargeId amount) = Opened gId rId t (b - amount)"
| "account_evolve (Opened gId rId t b) (PaymentRecorded paymentId amount) = Opened gId rId t (b + amount)"
| "account_evolve (Opened gId rId t b) (GuestCheckedOut t') = Account_CheckedOut gId rId t b t'"
| "account_evolve state e = state"

text \<open>Thrown errors are values: the error classes of the framework, each with its message.\<close>

datatype error = ValidationError string | IllegalStateError string | ConcurrencyError string

text \<open>
  The \<^verbatim>\<open>CheckOut\<close> command as \<^verbatim>\<open>api.ts\<close> builds it:
  \<open>CheckOut guestStayAccountId now\<close>.

  Modelled from the spec: the decision \<^verbatim>\<open>checkOut\<close> is in \<^verbatim>\<open>businessLogic.ts\<close>,
  which is not among the sources. Section 4.1: if \<^verbatim>\<open>NotExisting\<close>, fail ("account
  doesn't exist"); if \<^verbatim>\<open>CheckedOut\<close>, emit no events; if \<^verbatim>\<open>Opened\<close> and the balance
  is not 0, emit \<^verbatim>\<open>GuestCheckoutFailed\<close> with the reason "balance not settled"; if
  \<^verbatim>\<open>Opened\<close> and the balance is 0, emit \<^verbatim>\<open>GuestCheckedOut\<close>.
\<close>

datatype CheckOut = CheckOut string Date

fun checkOut :: "CheckOut \<Rightarrow> 'n::zero GuestStayAccount \<Rightarrow> error + 'n GuestStayAccountEvent list" where
  "checkOut (CheckOut guestStayAccountId now) Account_NotExisting =
     Inl (IllegalStateError ''account doesn't exist'')"
| "checkOut (CheckOut guestStayAccountId now) (Account_CheckedOut gId rId t b t') = Inr []"
| "checkOut (CheckOut guestStayAccountId now) (Opened gId rId t b) =
     (if b \<noteq> 0 then Inr [GuestCheckoutFailed ''balance not settled'']
      else Inr [GuestCheckedOut now])"

section \<open>The web API\<close>

subsection \<open>Validation and identifiers\<close>

text \<open>
  Modelled from the spec: \<^verbatim>\<open>assertNotEmptyString\<close> is imported from the framework and
  is not among the sources. Section 6: guest and room identifiers must be non-empty;
  section 7: a malformed identifier is an input validation error. A route parameter
  that is absent is \<open>None\<close>.
\<close>

definition assertNotEmptyString :: "string option \<Rightarrow> error + string" where
  "assertNotEmptyString v =
     (case v of
        None \<Rightarrow> Inl (ValidationError ''NOT_A_NONEMPTY_STRING'')
      | Some s \<Rightarrow> if s = [] then Inl (ValidationError ''NOT_A_NONEMPTY_STRING'') else Inr s)"

subsection \<open>Numbers\<close>

text \<open>
  A JavaScript number is an IEEE 754 binary64 value: not-a-number, one of the two
  infinities, or a finite value, given here by the rational it stands for. The two zeros
  are one value: the program compares them equal and nothing it does tells them apart.
\<close>

datatype number = NaN | Infinity | NegInfinity | Finite rat

text \<open>
  The number of binary digits of a positive integer, and the binary exponent of a
  rational \<open>x \<noteq> 0\<close>: the integer \<open>e\<close> with \<open>2 ^ e \<le> \<bar>x\<bar> < 2 ^ (e + 1)\<close>. For
  \<open>\<bar>x\<bar> = p / q\<close> it is the difference of the digit counts of \<open>p\<close> and \<open>q\<close>, or one less.
\<close>

function bit_length :: "int \<Rightarrow> int" where
  "bit_length n = (if n \<le> 0 then 0 else 1 + bit_length (n div 2))"
  by pat_completeness auto
termination by (relation "measure nat") auto

declare bit_length.simps [simp del]

definition binary_exponent :: "rat \<Rightarrow> int" where
  "binary_exponent x =
     (case quotient_of \<bar>x\<bar> of
        (p, q) \<Rightarrow>
          (let e = bit_length p - bit_length q
           in if 2 powi e \<le> \<bar>x\<bar> then e else e - 1))"

text \<open>
  Rounding to the nearest integer, a tie to the even one; and rounding of an exact result
  to binary64, which every arithmetic operation of a JavaScript number ends with. A
  binary64 value has a significand of 53 binary digits: it is a multiple of
  \<open>2 ^ (e - 52)\<close> for its exponent \<open>e\<close>. The least exponent is -1022 (below
  \<open>2 ^ (- 1022)\<close> the values are the multiples of \<open>2 ^ (- 1074)\<close>), the greatest is 1023:
  a result that rounds to \<open>2 ^ 1024\<close> or more in magnitude is an infinity.
\<close>

definition round_half_even :: "rat \<Rightarrow> int" where
  "round_half_even x =
     (let f = \<lfloor>x\<rfloor>; r = x - of_int f
      in if r < 1 / 2 then f else if 1 / 2 < r then f + 1 else if even f then f else f + 1)"

definition round_double :: "rat \<Rightarrow> number" where
  "round_double x =
     (if x = 0 then Finite 0
      else
        (let e = max (binary_exponent x) (- 1022);
             ulp = 2 powi (e - 52);
             y = of_int (round_half_even (x / ulp)) * ulp
         in if 1024 \<le> binary_exponent y then (if 0 < x then Infinity else NegInfinity)
            else Finite y))"

text \<open>
  The operators \<^verbatim>\<open>+\<close> and \<^verbatim>\<open>-\<close> of JavaScript on numbers: the exact sum, rounded; with
  not-a-number and the infinities as IEEE 754 has them. \<^verbatim>\<open>a - b\<close> is \<^verbatim>\<open>a + (-b)\<close>. The
  number \<^verbatim>\<open>0\<close> is the finite value 0.
\<close>

fun number_negate :: "number \<Rightarrow> number" where
  "number_negate NaN = NaN"
| "number_negate Infinity = NegInfinity"
| "number_negate NegInfinity = Infinity"
| "number_negate (Finite x) = Finite (- x)"

fun number_add :: "number \<Rightarrow> number \<Rightarrow> number" where
  "number_add (Finite x) (Finite y) = round_double (x + y)"
| "number_add NaN b = NaN"
| "number_add a NaN = NaN"
| "number_add Infinity NegInfinity = NaN"
| "number_add NegInfinity Infinity = NaN"
| "number_add Infinity b = Infinity"
| "number_add a Infinity = Infinity"
| "number_add NegInfinity b = NegInfinity"
| "number_add a NegInfinity = NegInfinity"

instantiation number :: "{zero, plus, minus}"
begin

definition zero_number :: number where
  "zero_number = Finite 0"

definition plus_number :: "number \<Rightarrow> number \<Rightarrow> number" where
  "plus_number a b = number_add a b"

definition minus_number :: "number \<Rightarrow> number \<Rightarrow> number" where
  "minus_number a b = number_add a (number_negate b)"

instance ..

end

text \<open>
  The comparison \<^verbatim>\<open>a <= b\<close> of JavaScript on numbers (false when either is not-a-number),
  \<^verbatim>\<open>isFinite\<close>, and the number that a natural number of currency units is.
\<close>

fun number_le :: "number \<Rightarrow> number \<Rightarrow> bool" where
  "number_le NaN b = False"
| "number_le a NaN = False"
| "number_le NegInfinity b = True"
| "number_le a Infinity = True"
| "number_le (Finite x) (Finite y) = (x \<le> y)"
| "number_le a b = False"

fun isFinite :: "number \<Rightarrow> bool" where
  "isFinite (Finite x) = True"
| "isFinite v = False"

definition whole_number :: "nat \<Rightarrow> number" where
  "whole_number k = Finite (of_nat k)"

text \<open>
  \<^verbatim>\<open>assertPositiveNumber\<close> is imported from the framework (\<^verbatim>\<open>@event-driven-io/emmett\<close>)
  and is not among the sources. The framework's check throws its validation error unless
  the value is a number, is not \<^verbatim>\<open>NaN\<close> and is greater than 0, and returns the value
  otherwise; \<^verbatim>\<open>Infinity\<close> is such a value. What \<^verbatim>\<open>api.ts\<close> passes is the result of
  \<^verbatim>\<open>Number\<close>, which is a number always; \<open>isNumber\<close> is the test that it is not
  \<^verbatim>\<open>NaN\<close>. (Sections 4.1 and 6 of the spec ask for a positive finite number; the check
  does not test finiteness.)
\<close>

definition isNumber :: "number \<Rightarrow> bool" where
  "isNumber v = (v \<noteq> NaN)"

definition assertPositiveNumber :: "number \<Rightarrow> error + number" where
  "assertPositiveNumber v =
     (if \<not> isNumber v then Inl (ValidationError ''NOT_A_POSITIVE_NUMBER'')
      else if number_le v 0 then Inl (ValidationError ''NOT_A_POSITIVE_NUMBER'')
      else Inr v)"

text \<open>The numbers greater than 0: the positive finite ones and \<^verbatim>\<open>Infinity\<close>.\<close>

fun isPositive :: "number \<Rightarrow> bool" where
  "isPositive Infinity = True"
| "isPositive (Finite x) = (0 < x)"
| "isPositive v = False"

subsection \<open>Calendar days and their text\<close>

text \<open>
  \<^verbatim>\<open>formatDateToUtcYYYYMMDD\<close> and \<^verbatim>\<open>parseDateFromUtcYYYYMMDD\<close> are imported from the
  framework (\<^verbatim>\<open>@event-driven-io/emmett\<close>) and are not among the sources; the model follows
  what they do. The day of a \<^verbatim>\<open>Date\<close> is its UTC day, the number of whole days since the
  epoch; the calendar is the proleptic Gregorian one, computed with the usual era
  arithmetic (eras of 400 years that start on 1 March). Section 6 of the spec has the
  text of a day as a four-digit year, a two-digit month and a two-digit day.
\<close>

definition utcDay :: "Date \<Rightarrow> int" where
  "utcDay t = t div 86400000"

definition civil_from_days :: "int \<Rightarrow> int \<times> int \<times> int" where
  "civil_from_days z0 =
    (let z = z0 + 719468;
         era = z div 146097;
         doe = z - era * 146097;
         yoe = (doe - doe div 1460 + doe div 36524 - doe div 146096) div 365;
         y = yoe + era * 400;
         doy = doe - (365 * yoe + yoe div 4 - yoe div 100);
         mp = (5 * doy + 2) div 153;
         d = doy - (153 * mp + 2) div 5 + 1;
         m = (if mp < 10 then mp + 3 else mp - 9)
     in (if m \<le> 2 then y + 1 else y, m, d))"

definition days_from_civil :: "int \<times> int \<times> int \<Rightarrow> int" where
  "days_from_civil c =
    (case c of (y0, m, d) \<Rightarrow>
      let y = (if m \<le> 2 then y0 - 1 else y0);
          era = y div 400;
          yoe = y - era * 400;
          doy = (153 * (if 2 < m then m - 3 else m + 9) + 2) div 5 + d - 1;
          doe = yoe * 365 + yoe div 4 - yoe div 100 + doy
      in era * 146097 + doe - 719468)"

definition utcYear :: "Date \<Rightarrow> int" where
  "utcYear t = fst (civil_from_days (utcDay t))"

definition digit_char :: "int \<Rightarrow> char" where
  "digit_char n = char_of (48 + n)"

definition is_digit :: "char \<Rightarrow> bool" where
  "is_digit c = (48 \<le> (of_char c :: int) \<and> (of_char c :: int) \<le> 57)"

definition digit_value :: "char \<Rightarrow> int" where
  "digit_value c = of_char c - 48"

definition two_digits :: "int \<Rightarrow> string" where
  "two_digits n = [digit_char (n div 10), digit_char (n mod 10)]"

definition four_digits :: "int \<Rightarrow> string" where
  "four_digits n = [digit_char (n div 1000), digit_char (n div 100 mod 10),
                    digit_char (n div 10 mod 10), digit_char (n mod 10)]"

text \<open>
  The formatter writes the UTC day as \<^verbatim>\<open>Intl.DateTimeFormat\<close> does for the locale
  \<^verbatim>\<open>en-CA\<close>: the year as a plain decimal numeral, with no padding and no sign, then the
  month and the day with two digits each: \<^verbatim>\<open>2026-11-03\<close>, \<^verbatim>\<open>999-12-31\<close>,
  \<^verbatim>\<open>10000-01-01\<close>. The year written is the year of the era: a year \<open>y\<close> before year 1
  is written as \<open>1 - y\<close>, so that year 0 is written 1.
\<close>

function decimal :: "int \<Rightarrow> string" where
  "decimal n = (if n < 10 then [digit_char n] else decimal (n div 10) @ [digit_char (n mod 10)])"
  by pat_completeness auto
termination by (relation "measure nat") auto

declare decimal.simps [simp del]

definition year_text :: "int \<Rightarrow> string" where
  "year_text y = decimal (if 1 \<le> y then y else 1 - y)"

definition formatDateToUtcYYYYMMDD :: "Date \<Rightarrow> string" where
  "formatDateToUtcYYYYMMDD date =
     (case civil_from_days (utcDay date) of
        (y, m, d) \<Rightarrow> year_text y @ ''-'' @ two_digits m @ ''-'' @ two_digits d)"

text \<open>
  The parser reads the text of a day back to the first millisecond of that day, as the
  \<^verbatim>\<open>Date\<close> constructor reads a date at midnight UTC, and throws a validation error
  when there is no such date. A text \<^verbatim>\<open>YYYY-MM-DD\<close> of digits needs a month from 01 to
  12 and a day from 01 to 31; a day past the end of the month counts on into the next
  month (30 February is 2 March). A year of fewer or more than four digits is not read.
  The model refuses every text that is not of the form \<^verbatim>\<open>YYYY-MM-DD\<close>; the formatter
  writes no other text that would be read.
\<close>

definition parseDateFromUtcYYYYMMDD :: "string \<Rightarrow> error + Date" where
  "parseDateFromUtcYYYYMMDD dateString =
     (case dateString of
        [y1, y2, y3, y4, s1, m1, m2, s2, d1, d2] \<Rightarrow>
          if s1 = CHR ''-'' \<and> s2 = CHR ''-'' \<and> list_all is_digit [y1, y2, y3, y4, m1, m2, d1, d2]
          then
            (let y = 1000 * digit_value y1 + 100 * digit_value y2 + 10 * digit_value y3 + digit_value y4;
                 m = 10 * digit_value m1 + digit_value m2;
                 d = 10 * digit_value d1 + digit_value d2
             in if 1 \<le> m \<and> m \<le> 12 \<and> 1 \<le> d \<and> d \<le> 31
                then Inr (days_from_civil (y, m, d) * 86400000)
                else Inl (ValidationError ''Invalid date format, must be yyyy-mm-dd''))
          else Inl (ValidationError ''Invalid date format, must be yyyy-mm-dd'')
      | _ \<Rightarrow> Inl (ValidationError ''Invalid date format, must be yyyy-mm-dd''))"

text \<open>
  Modelled from the spec: \<^verbatim>\<open>toGuestStayAccountId\<close> is in \<^verbatim>\<open>guestStayAccount.ts\<close>,
  which is not among the sources. Section 3: the identifier is a deterministic key
  derived from guestId, roomId and the stay date at day granularity. The derivation
  \<open>key\<close> is a parameter: any function of the three.
\<close>

definition toGuestStayAccountId :: "(string \<Rightarrow> string \<Rightarrow> int \<Rightarrow> string) \<Rightarrow> string \<Rightarrow> string \<Rightarrow> Date \<Rightarrow> string" where
  "toGuestStayAccountId key gId rId date = key gId rId (utcDay date)"

subsection \<open>Requests, responses and the stores\<close>

text \<open>
  The route parameters are \<^verbatim>\<open>Partial<{ guestId, roomId, checkInDate }>\<close>: each may be
  absent. The body of a charge or payment request is read at \<^verbatim>\<open>amount\<close> only; what
  is there is any JavaScript value, of type \<open>'v\<close>.
\<close>

record params =
  param_guestId :: "string option"
  param_roomId :: "string option"
  param_checkInDate :: "string option"

datatype ('b, 't) response =
    Created string
  | NoContent
  | Forbidden "string option"
  | NotFound
  | OK 'b 't

text \<open>
  The database holds the event streams and, written by the inline projection, the
  collection \<^verbatim>\<open>GuestStayDetails\<close> of documents by \<^verbatim>\<open>_id\<close>.
\<close>

record 'n database =
  streams :: "string \<Rightarrow> 'n GuestStayAccountEvent list"
  guestStayDetailsCollection :: "string \<rightharpoonup> 'n GuestStayDetails"

definition getGuestStayDetails :: "'n database \<Rightarrow> string \<Rightarrow> 'n GuestStayDetails option" where
  "getGuestStayDetails pongo guestStayAccountId = guestStayDetailsCollection pongo guestStayAccountId"

text \<open>
  \<^verbatim>\<open>parseGuestStayAccountId\<close> of \<^verbatim>\<open>api.ts\<close>; the arguments are evaluated left to
  right, so the first failing assertion is the error.
\<close>

definition parseGuestStayAccountId :: "(string \<Rightarrow> string \<Rightarrow> int \<Rightarrow> string) \<Rightarrow> params \<Rightarrow> error + string" where
  "parseGuestStayAccountId key ps =
     (case assertNotEmptyString (param_guestId ps) of
        Inl e \<Rightarrow> Inl e
      | Inr gId \<Rightarrow>
     (case assertNotEmptyString (param_roomId ps) of
        Inl e \<Rightarrow> Inl e
      | Inr rId \<Rightarrow>
     (case assertNotEmptyString (param_checkInDate ps) of
        Inl e \<Rightarrow> Inl e
      | Inr checkInDate \<Rightarrow>
     (case parseDateFromUtcYYYYMMDD checkInDate of
        Inl e \<Rightarrow> Inl e
      | Inr date \<Rightarrow> Inr (toGuestStayAccountId key gId rId date)))))"

subsection \<open>The routes\<close>

text \<open>
  The command handler \<^verbatim>\<open>handle = CommandHandler({ evolve, initialState })\<close> comes from
  the framework; in every route it is the parameter \<open>handle\<close>, a function of the
  database, the stream id and the decision, which fails or returns the new events and
  the database after the append. The decisions \<^verbatim>\<open>checkIn\<close>, \<^verbatim>\<open>recordCharge\<close>,
  \<^verbatim>\<open>recordPayment\<close> and \<^verbatim>\<open>checkOut\<close> of \<^verbatim>\<open>businessLogic.ts\<close> are the parameter
  \<open>decide\<close> of their routes. Parameters too are the functions the API is built from
  (\<^verbatim>\<open>doesGuestStayExist\<close>, \<^verbatim>\<open>generateId\<close>, and the value \<open>now\<close> that
  \<^verbatim>\<open>getCurrentTime()\<close> returns in the request), JavaScript's \<^verbatim>\<open>Number\<close> and the
  framework's \<^verbatim>\<open>toWeakETag\<close>. A promise is the value it resolves to. A route returns
  the thrown error, or the response and the database.
\<close>

type_synonym ('n, 'w) handler =
  "'n database \<Rightarrow> string \<Rightarrow> ('w \<Rightarrow> error + 'n GuestStayAccountEvent list)
     \<Rightarrow> error + ('n GuestStayAccountEvent list \<times> 'n database)"

text \<open>The commands as the routes build them: \<open>CheckIn guestId roomId now\<close>,
  \<open>RecordCharge chargeId guestStayAccountId amount now\<close>,
  \<open>RecordPayment paymentId guestStayAccountId amount now\<close>.\<close>

datatype CheckIn = CheckIn string string Date
datatype RecordCharge = RecordCharge string string number Date
datatype RecordPayment = RecordPayment string string number Date

definition checkInRoute ::
  "('n, 'w) handler \<Rightarrow> (CheckIn \<Rightarrow> 'w \<Rightarrow> error + 'n GuestStayAccountEvent list) \<Rightarrow>
   (string \<Rightarrow> string \<Rightarrow> int \<Rightarrow> string) \<Rightarrow> (string \<Rightarrow> string \<Rightarrow> Date \<Rightarrow> bool) \<Rightarrow> Date \<Rightarrow>
   'n database \<Rightarrow> params \<Rightarrow> error + (('b, 't) response \<times> 'n database)" where
  "checkInRoute handle decide key doesGuestStayExist now eventStore ps =
     (case assertNotEmptyString (param_guestId ps) of
        Inl e \<Rightarrow> Inl e
      | Inr gId \<Rightarrow>
     (case assertNotEmptyString (param_roomId ps) of
        Inl e \<Rightarrow> Inl e
      | Inr rId \<Rightarrow>
        if \<not> doesGuestStayExist gId rId now then Inr (Forbidden None, eventStore)
        else
          (let guestStayAccountId = toGuestStayAccountId key gId rId now;
               command = CheckIn gId rId now
           in case handle eventStore guestStayAccountId (\<lambda>state. decide command state) of
                Inl e \<Rightarrow> Inl e
              | Inr (newEvents, eventStore') \<Rightarrow>
                  Inr (Created (''/guests/'' @ gId @ ''/stays/'' @ rId @ ''/periods/'' @
                                formatDateToUtcYYYYMMDD now), eventStore'))))"

definition recordChargeRoute ::
  "('n, 'w) handler \<Rightarrow> (RecordCharge \<Rightarrow> 'w \<Rightarrow> error + 'n GuestStayAccountEvent list) \<Rightarrow>
   (string \<Rightarrow> string \<Rightarrow> int \<Rightarrow> string) \<Rightarrow> ('v \<Rightarrow> number) \<Rightarrow> (string \<Rightarrow> string) \<Rightarrow> Date \<Rightarrow>
   'n database \<Rightarrow> params \<Rightarrow> 'v \<Rightarrow> error + (('b, 't) response \<times> 'n database)" where
  "recordChargeRoute handle decide key toNumber generateId now eventStore ps body_amount =
     (case parseGuestStayAccountId key ps of
        Inl e \<Rightarrow> Inl e
      | Inr guestStayAccountId \<Rightarrow>
     (let chargeId = generateId ''charge'' in
      case assertPositiveNumber (toNumber body_amount) of
        Inl e \<Rightarrow> Inl e
      | Inr amount \<Rightarrow>
          (let command = RecordCharge chargeId guestStayAccountId amount now
           in case handle eventStore guestStayAccountId (\<lambda>state. decide command state) of
                Inl e \<Rightarrow> Inl e
              | Inr (newEvents, eventStore') \<Rightarrow> Inr (NoContent, eventStore'))))"

definition recordPaymentRoute ::
  "('n, 'w) handler \<Rightarrow> (RecordPayment \<Rightarrow> 'w \<Rightarrow> error + 'n GuestStayAccountEvent list) \<Rightarrow>
   (string \<Rightarrow> string \<Rightarrow> int \<Rightarrow> string) \<Rightarrow> ('v \<Rightarrow> number) \<Rightarrow> (string \<Rightarrow> string) \<Rightarrow> Date \<Rightarrow>
   'n database \<Rightarrow> params \<Rightarrow> 'v \<Rightarrow> error + (('b, 't) response \<times> 'n database)" where
  "recordPaymentRoute handle decide key toNumber generateId now eventStore ps body_amount =
     (case parseGuestStayAccountId key ps of
        Inl e \<Rightarrow> Inl e
      | Inr guestStayAccountId \<Rightarrow>
     (let paymentId = generateId ''payment'' in
      case assertPositiveNumber (toNumber body_amount) of
        Inl e \<Rightarrow> Inl e
      | Inr amount \<Rightarrow>
          (let command = RecordPayment paymentId guestStayAccountId amount now
           in case handle eventStore guestStayAccountId (\<lambda>state. decide command state) of
                Inl e \<Rightarrow> Inl e
              | Inr (newEvents, eventStore') \<Rightarrow> Inr (NoContent, eventStore'))))"

definition checkOutRoute ::
  "('n, 'w) handler \<Rightarrow> (CheckOut \<Rightarrow> 'w \<Rightarrow> error + 'n GuestStayAccountEvent list) \<Rightarrow>
   (string \<Rightarrow> string \<Rightarrow> int \<Rightarrow> string) \<Rightarrow> Date \<Rightarrow>
   'n database \<Rightarrow> params \<Rightarrow> error + (('b, 't) response \<times> 'n database)" where
  "checkOutRoute handle decide key now eventStore ps =
     (case parseGuestStayAccountId key ps of
        Inl e \<Rightarrow> Inl e
      | Inr guestStayAccountId \<Rightarrow>
          (let command = CheckOut guestStayAccountId now
           in case handle eventStore guestStayAccountId (\<lambda>state. decide command state) of
                Inl e \<Rightarrow> Inl e
              | Inr (newEvents, eventStore') \<Rightarrow>
                  Inr (case newEvents of
                         [] \<Rightarrow> NoContent
                       | GuestCheckoutFailed reason # rest \<Rightarrow> Forbidden (Some reason)
                       | e # rest \<Rightarrow> NoContent,
                       eventStore')))"

text \<open>
  \<^verbatim>\<open>const { _version, ...document } = result\<close>: the body is the document without its
  \<^verbatim>\<open>_version\<close>.
\<close>

definition without_version :: "'n CheckedIn_document \<Rightarrow> 'n CheckedIn_body" where
  "without_version result =
     \<lparr> doc_id = doc_id result, guestId = guestId result, roomId = roomId result,
       status = status result, balance = balance result,
       transactionsCount = transactionsCount result, transactions = transactions result,
       checkedInAt = checkedInAt result, checkedOutAt = checkedOutAt result \<rparr>"

definition getDetailsRoute ::
  "(string \<Rightarrow> string \<Rightarrow> int \<Rightarrow> string) \<Rightarrow> (int option \<Rightarrow> 't) \<Rightarrow>
   'n database \<Rightarrow> params \<Rightarrow> error + ('n CheckedIn_body, 't) response" where
  "getDetailsRoute key toWeakETag readStore ps =
     (case parseGuestStayAccountId key ps of
        Inl e \<Rightarrow> Inl e
      | Inr guestStayAccountId \<Rightarrow>
     (case getGuestStayDetails readStore guestStayAccountId of
        None \<Rightarrow> Inr NotFound
      | Some NotExisting \<Rightarrow> Inr NotFound
      | Some (Stay result) \<Rightarrow>
          if status result \<noteq> CheckedIn then Inr NotFound
          else Inr (OK (without_version result) (toWeakETag (doc_version result)))))"

text \<open>The amount a command carries.\<close>

fun charge_amount :: "RecordCharge \<Rightarrow> number" where
  "charge_amount (RecordCharge chargeId guestStayAccountId amount now) = amount"

fun payment_amount :: "RecordPayment \<Rightarrow> number" where
  "payment_amount (RecordPayment paymentId guestStayAccountId amount now) = amount"

text \<open>
  Modelled from the spec: the decisions \<^verbatim>\<open>recordCharge\<close> and \<^verbatim>\<open>recordPayment\<close> are in
  \<^verbatim>\<open>businessLogic.ts\<close>, which is not among the sources. Section 4.1: RecordCharge
  requires \<^verbatim>\<open>Opened\<close> and emits \<^verbatim>\<open>ChargeRecorded\<close>; if \<^verbatim>\<open>NotExisting\<close>, fail
  ("account doesn't exist"); if \<^verbatim>\<open>CheckedOut\<close>, fail ("already checked out").
  RecordPayment is symmetric and emits \<^verbatim>\<open>PaymentRecorded\<close>. The event carries the id and
  the amount of the command.
\<close>

fun recordCharge :: "RecordCharge \<Rightarrow> number GuestStayAccount \<Rightarrow> error + number GuestStayAccountEvent list" where
  "recordCharge (RecordCharge chargeId guestStayAccountId amount now) Account_NotExisting =
     Inl (IllegalStateError ''account doesn't exist'')"
| "recordCharge (RecordCharge chargeId guestStayAccountId amount now) (Account_CheckedOut gId rId t b t') =
     Inl (IllegalStateError ''already checked out'')"
| "recordCharge (RecordCharge chargeId guestStayAccountId amount now) (Opened gId rId t b) =
     Inr [ChargeRecorded chargeId amount]"

fun recordPayment :: "RecordPayment \<Rightarrow> number GuestStayAccount \<Rightarrow> error + number GuestStayAccountEvent list" where
  "recordPayment (RecordPayment paymentId guestStayAccountId amount now) Account_NotExisting =
     Inl (IllegalStateError ''account doesn't exist'')"
| "recordPayment (RecordPayment paymentId guestStayAccountId amount now) (Account_CheckedOut gId rId t b t') =
     Inl (IllegalStateError ''already checked out'')"
| "recordPayment (RecordPayment paymentId guestStayAccountId amount now) (Opened gId rId t b) =
     Inr [PaymentRecorded paymentId amount]"

text \<open>
  Modelled from the spec: the command handler comes from the framework. Section 4.2,
  with one writer and so no conflict: read the stream, fold \<^verbatim>\<open>evolve\<close> over it from
  the initial state, decide, and append the new events. It serves the scenarios below;
  the theorems hold for every handler.
\<close>

definition handle_single_writer :: "('n::{zero,plus,minus}, 'n GuestStayAccount) handler" where
  "handle_single_writer eventStore streamId decide =
     (case decide (foldl account_evolve Account_NotExisting (streams eventStore streamId)) of
        Inl e \<Rightarrow> Inl e
      | Inr newEvents \<Rightarrow>
          Inr (newEvents,
               eventStore \<lparr> streams := (streams eventStore)
                              (streamId := streams eventStore streamId @ newEvents) \<rparr>))"

subsection \<open>The command handler\<close>

text \<open>
  Modelled from the spec: \<^verbatim>\<open>CommandHandler\<close> is imported from the framework and is not
  among the sources; \<^verbatim>\<open>api.ts\<close> builds \<^verbatim>\<open>handle\<close> from it with \<^verbatim>\<open>evolve\<close> and
  \<^verbatim>\<open>initialState\<close> and no other option. Section 6 gives the event log:
  \<^verbatim>\<open>readStream(id) -> (orderedEvents, currentVersion)\<close> and
  \<^verbatim>\<open>appendToStream(id, expectedVersion, events) -> newVersion | ConcurrencyConflict\<close>;
  the version of a stream is the number of its events.
\<close>

definition readStream :: "'n database \<Rightarrow> string \<Rightarrow> 'n GuestStayAccountEvent list \<times> nat" where
  "readStream eventStore streamId = (streams eventStore streamId, length (streams eventStore streamId))"

definition appendToStream ::
  "'n database \<Rightarrow> string \<Rightarrow> nat \<Rightarrow> 'n GuestStayAccountEvent list \<Rightarrow> error + 'n database" where
  "appendToStream eventStore streamId expectedVersion events =
     (if length (streams eventStore streamId) = expectedVersion
      then Inr (eventStore \<lparr> streams := (streams eventStore)
                              (streamId := streams eventStore streamId @ events) \<rparr>)
      else Inl (ConcurrencyError ''expected version conflict''))"

text \<open>
  Other writers act between the read and the append of a cycle. \<open>others\<close> lists, cycle
  by cycle, the events they append to the stream in that interval (none when the list
  is exhausted).
\<close>

definition other_writers :: "'n GuestStayAccountEvent list list \<Rightarrow> 'n database \<Rightarrow> string \<Rightarrow> 'n database" where
  "other_writers others eventStore streamId =
     (case others of
        [] \<Rightarrow> eventStore
      | written # later \<Rightarrow>
          eventStore \<lparr> streams := (streams eventStore)
                         (streamId := streams eventStore streamId @ written) \<rparr>)"

text \<open>
  Modelled from the spec, section 4.2, one load-decide-append cycle: read the stream and
  its version, fold \<^verbatim>\<open>evolve\<close> over the events from the initial state, call the
  decision and propagate its failure; with no new event return without an append;
  otherwise append on condition that the stream is still at the version read. The cycle
  ends with the handler's result (on the left), or with the conflict and the store the
  other writers left (on the right).
\<close>

definition load_decide_append ::
  "('s \<Rightarrow> 'n GuestStayAccountEvent \<Rightarrow> 's) \<Rightarrow> 's \<Rightarrow> 'n GuestStayAccountEvent list list \<Rightarrow>
   'n database \<Rightarrow> string \<Rightarrow> ('s \<Rightarrow> error + 'n GuestStayAccountEvent list) \<Rightarrow>
   (error + ('n GuestStayAccountEvent list \<times> 'n database)) + (error \<times> 'n database)" where
  "load_decide_append evolveFn initial others eventStore streamId commandFn =
     (case readStream eventStore streamId of
        (events, v) \<Rightarrow>
          (case commandFn (foldl evolveFn initial events) of
             Inl failure \<Rightarrow> Inl (Inl failure)
           | Inr newEvents \<Rightarrow>
               if newEvents = [] then Inl (Inr ([], eventStore))
               else
                 (let eventStore' = other_writers others eventStore streamId in
                  case appendToStream eventStore' streamId v newEvents of
                    Inr appended \<Rightarrow> Inl (Inr (newEvents, appended))
                  | Inl conflict \<Rightarrow> Inr (conflict, eventStore'))))"

text \<open>
  Modelled from the spec, section 4.2 and design notes: a bounded retry loop around the
  cycle. After a rejected append the whole cycle is run again, at most \<open>retries\<close> times;
  past that the conflict is the handler's failure. The spec gives no number, so
  \<open>retries\<close> is a parameter. The second component counts the cycles run.
\<close>

fun CommandHandler ::
  "('s \<Rightarrow> 'n GuestStayAccountEvent \<Rightarrow> 's) \<Rightarrow> 's \<Rightarrow> nat \<Rightarrow> 'n GuestStayAccountEvent list list \<Rightarrow>
   'n database \<Rightarrow> string \<Rightarrow> ('s \<Rightarrow> error + 'n GuestStayAccountEvent list) \<Rightarrow>
   (error + ('n GuestStayAccountEvent list \<times> 'n database)) \<times> nat" where
  "CommandHandler evolveFn initial 0 others eventStore streamId commandFn =
     (case load_decide_append evolveFn initial others eventStore streamId commandFn of
        Inl result \<Rightarrow> (result, 1)
      | Inr (conflict, eventStore') \<Rightarrow> (Inl conflict, 1))"
| "CommandHandler evolveFn initial (Suc retries) others eventStore streamId commandFn =
     (case load_decide_append evolveFn initial others eventStore streamId commandFn of
        Inl result \<Rightarrow> (result, 1)
      | Inr (conflict, eventStore') \<Rightarrow>
          (case CommandHandler evolveFn initial retries (tl others) eventStore' streamId commandFn of
             (result, cycles) \<Rightarrow> (result, Suc cycles)))"

text \<open>
  Vocabulary for the statements. Cycle \<open>k\<close> of the handler (the first is cycle 0) reads
  the stream as it was at the start with what the other writers appended during the
  cycles before it. Its append is rejected when the decision, on the state folded from
  that stream, gives new events and the other writers append to the stream during the
  cycle.
\<close>

definition stream_at ::
  "'n GuestStayAccountEvent list list \<Rightarrow> 'n database \<Rightarrow> string \<Rightarrow> nat \<Rightarrow> 'n GuestStayAccountEvent list" where
  "stream_at others eventStore streamId k = streams eventStore streamId @ concat (take k others)"

definition append_rejected ::
  "('s \<Rightarrow> 'n GuestStayAccountEvent \<Rightarrow> 's) \<Rightarrow> 's \<Rightarrow> 'n GuestStayAccountEvent list list \<Rightarrow>
   'n database \<Rightarrow> string \<Rightarrow> ('s \<Rightarrow> error + 'n GuestStayAccountEvent list) \<Rightarrow> nat \<Rightarrow> bool" where
  "append_rejected evolveFn initial others eventStore streamId commandFn k =
     (k < length others \<and> others ! k \<noteq> [] \<and>
      (case commandFn (foldl evolveFn initial (stream_at others eventStore streamId k)) of
         Inl failure \<Rightarrow> False
       | Inr newEvents \<Rightarrow> newEvents \<noteq> []))"

text \<open>
  What a cycle \<open>k\<close> whose append is not rejected ends with: the failure of the decision,
  or the new events and the store with them appended to the stream that the cycle read.
\<close>

definition cycle_outcome ::
  "('s \<Rightarrow> 'n GuestStayAccountEvent \<Rightarrow> 's) \<Rightarrow> 's \<Rightarrow> 'n GuestStayAccountEvent list list \<Rightarrow>
   'n database \<Rightarrow> string \<Rightarrow> ('s \<Rightarrow> error + 'n GuestStayAccountEvent list) \<Rightarrow> nat \<Rightarrow>
   error + ('n GuestStayAccountEvent list \<times> 'n database)" where
  "cycle_outcome evolveFn initial others eventStore streamId commandFn k =
     (case commandFn (foldl evolveFn initial (stream_at others eventStore streamId k)) of
        Inl failure \<Rightarrow> Inl failure
      | Inr newEvents \<Rightarrow>
          Inr (newEvents,
               eventStore \<lparr> streams := (streams eventStore)
                 (streamId := stream_at others eventStore streamId k @ newEvents) \<rparr>))"

text \<open>
  A derivation of the identifier for the scenarios: guest, room and the text of the day.
\<close>

definition dayKey :: "string \<Rightarrow> string \<Rightarrow> int \<Rightarrow> string" where
  "dayKey gId rId day = gId @ ''-'' @ rId @ ''-'' @ formatDateToUtcYYYYMMDD (day * 86400000)"

text \<open>
  A store for the scenarios: it has the stream of one stay, checked in on 3 November 2026,
  and no document.
\<close>

definition checked_in_store :: "'n database" where
  "checked_in_store =
     \<lparr> streams = (\<lambda>streamId. [])
         (''g1-r1-2026-11-03'' := [GuestCheckedIn ''g1-r1-2026-11-03'' ''g1'' ''r1'' 1793700000000]),
       guestStayDetailsCollection = Map.empty \<rparr>"

section \<open>Properties of the read-side evolve\<close>

text \<open>
  C5. The read-side evolve has no failing branch: it is a total function of state and
  event. An event that does not apply to the state returns the state itself:
  \<^verbatim>\<open>GuestCheckedIn\<close> when a document exists, and \<^verbatim>\<open>ChargeRecorded\<close>,
  \<^verbatim>\<open>PaymentRecorded\<close>, \<^verbatim>\<open>GuestCheckedOut\<close> when the status is not \<^verbatim>\<open>CheckedIn\<close>
  (no document, or a checked-out one). \<^verbatim>\<open>GuestCheckoutFailed\<close> returns the state
  itself in every state.
\<close>

theorem evolve_inapplicable_unchanged:
  fixes state :: "'n::{zero,plus,minus} GuestStayDetails"
  shows "(state \<noteq> NotExisting \<longrightarrow> evolve state (GuestCheckedIn a g r t) = state) \<and>
         (\<not> isCheckedIn state \<longrightarrow>
            evolve state (ChargeRecorded i x) = state \<and>
            evolve state (PaymentRecorded i x) = state \<and>
            evolve state (GuestCheckedOut t) = state) \<and>
         evolve state (GuestCheckoutFailed reason) = state"
  by (cases state) (simp_all add: isCheckedIn_def)

theorem evolve_inapplicable_unchanged_witness:
  "(let state = Stay \<lparr> doc_id = ''a'', guestId = ''g'', roomId = ''r'', status = CheckedOut,
        balance = (0::int), transactionsCount = 2, transactions = [(''c'', 5), (''p'', 5)],
        checkedInAt = 10, checkedOutAt = Some 20, doc_version = Some 4 \<rparr>
    in state \<noteq> NotExisting \<and> \<not> isCheckedIn state \<and>
       evolve state (GuestCheckedIn ''a'' ''g'' ''r'' 30) = state \<and>
       evolve state (ChargeRecorded ''c2'' 7) = state \<and>
       evolve state (PaymentRecorded ''c2'' 7) = state \<and>
       evolve state (GuestCheckedOut 30) = state \<and>
       evolve state (GuestCheckoutFailed ''BalanceNotSettled'') = state)"
  using evolve_inapplicable_unchanged [of "Stay \<lparr> doc_id = ''a'', guestId = ''g'', roomId = ''r'',
        status = CheckedOut, balance = (0::int), transactionsCount = 2,
        transactions = [(''c'', 5), (''p'', 5)],
        checkedInAt = 10, checkedOutAt = Some 20, doc_version = Some 4 \<rparr>"
        "''a''" "''g''" "''r''" 30 "''c2''" 7 "''BalanceNotSettled''"]
  by (simp add: isCheckedIn_def Let_def)

text \<open>
  C6. Once a document exists, no event removes it: evolve on a document returns a
  document. The fields \<^verbatim>\<open>_id\<close>, \<^verbatim>\<open>guestId\<close>, \<^verbatim>\<open>roomId\<close> and \<^verbatim>\<open>checkedInAt\<close> of
  the result are those of the state, and if the status differs then it went from
  \<^verbatim>\<open>CheckedIn\<close> to \<^verbatim>\<open>CheckedOut\<close>.
\<close>

theorem evolve_document_kept:
  fixes d :: "'n::{zero,plus,minus} CheckedIn_document"
  shows "\<exists>d'. evolve (Stay d) e = Stay d' \<and>
           doc_id d' = doc_id d \<and> guestId d' = guestId d \<and> roomId d' = roomId d \<and>
           checkedInAt d' = checkedInAt d \<and>
           (status d' \<noteq> status d \<longrightarrow> status d = CheckedIn \<and> status d' = CheckedOut)"
  by (cases e; cases "status d") simp_all

theorem evolve_document_kept_witness:
  "\<exists>d'. evolve (Stay \<lparr> doc_id = ''a'', guestId = ''g'', roomId = ''r'', status = CheckedIn,
             balance = (0::int), transactionsCount = 0, transactions = [],
             checkedInAt = 10, checkedOutAt = None, doc_version = Some 1 \<rparr>)
           (GuestCheckedOut 20) = Stay d' \<and>
         doc_id d' = ''a'' \<and> guestId d' = ''g'' \<and> roomId d' = ''r'' \<and> checkedInAt d' = 10 \<and>
         status d' \<noteq> CheckedIn \<and> status d' = CheckedOut"
  using evolve_document_kept [of "\<lparr> doc_id = ''a'', guestId = ''g'', roomId = ''r'',
             status = CheckedIn, balance = (0::int), transactionsCount = 0, transactions = [],
             checkedInAt = 10, checkedOutAt = None, doc_version = Some 1 \<rparr>" "GuestCheckedOut 20"]
  by simp

lemma foldl_evolve_transactions:
  fixes d :: "'n::{zero,plus,minus} CheckedIn_document"
  assumes "\<forall>e \<in> set es. isTransaction e" and "status d = CheckedIn"
  shows "foldl evolve (Stay d) es =
         Stay (d \<lparr> balance := running_balance (balance d) es,
                   transactionsCount := transactionsCount d + int (length es),
                   transactions := transactions d @ entries es \<rparr>)"
  using assms
proof (induction es arbitrary: d)
  case Nil
  then show ?case by simp
next
  case (Cons e es)
  show ?case
  proof (cases e)
    case (ChargeRecorded i a)
    let ?d = "d \<lparr> balance := balance d - a, transactionsCount := transactionsCount d + 1,
                   transactions := transactions d @ [(i, a)] \<rparr>"
    have "foldl evolve (Stay d) (e # es) = foldl evolve (Stay ?d) es"
      using Cons.prems(2) ChargeRecorded by simp
    also have "\<dots> = Stay (?d \<lparr> balance := running_balance (balance ?d) es,
                   transactionsCount := transactionsCount ?d + int (length es),
                   transactions := transactions ?d @ entries es \<rparr>)"
      using Cons.prems by (intro Cons.IH) simp_all
    finally show ?thesis using ChargeRecorded by simp
  next
    case (PaymentRecorded i a)
    let ?d = "d \<lparr> balance := balance d + a, transactionsCount := transactionsCount d + 1,
                   transactions := transactions d @ [(i, a)] \<rparr>"
    have "foldl evolve (Stay d) (e # es) = foldl evolve (Stay ?d) es"
      using Cons.prems(2) PaymentRecorded by simp
    also have "\<dots> = Stay (?d \<lparr> balance := running_balance (balance ?d) es,
                   transactionsCount := transactionsCount ?d + int (length es),
                   transactions := transactions ?d @ entries es \<rparr>)"
      using Cons.prems by (intro Cons.IH) simp_all
    finally show ?thesis using PaymentRecorded by simp
  qed (use Cons.prems in simp_all)
qed

lemma length_charges_payments:
  "\<forall>e \<in> set es. isTransaction e \<Longrightarrow> length (charges es) + length (payments es) = length es"
proof (induction es)
  case Nil
  then show ?case by simp
next
  case (Cons e es)
  then show ?case by (cases e) simp_all
qed

lemma length_entries:
  "\<forall>e \<in> set es. isTransaction e \<Longrightarrow> length (entries es) = length es"
proof (induction es)
  case Nil
  then show ?case by simp
next
  case (Cons e es)
  then show ?case by (cases e) simp_all
qed

subsection \<open>Whole amounts are added without rounding\<close>

lemma bit_length_bounds:
  "0 < n \<Longrightarrow> 1 \<le> bit_length n \<and> 2 ^ nat (bit_length n - 1) \<le> n \<and> n < 2 ^ nat (bit_length n)"
proof (induction n rule: bit_length.induct)
  case (1 n)
  show ?case
  proof (cases "n = 1")
    case True
    then show ?thesis by (simp add: bit_length.simps)
  next
    case False
    with 1(2) have h: "0 < n div 2" by simp
    from 1(1) h 1(2) have IH: "1 \<le> bit_length (n div 2)"
        "2 ^ nat (bit_length (n div 2) - 1) \<le> n div 2" "n div 2 < 2 ^ nat (bit_length (n div 2))"
      by simp_all
    define k where "k = nat (bit_length (n div 2) - 1)"
    have b: "bit_length n = 1 + bit_length (n div 2)"
      using 1(2) by (subst bit_length.simps) simp
    have k1: "nat (bit_length n - 1) = Suc k" "nat (bit_length n) = Suc (Suc k)"
      "nat (bit_length (n div 2)) = Suc k"
      using IH(1) unfolding b k_def by simp_all
    have "2 * (n div 2) \<le> n" "n < 2 * (n div 2) + 2"
      by simp_all
    moreover have "2 ^ k \<le> n div 2" "n div 2 < 2 ^ Suc k"
      using IH(2,3) unfolding k1(3) k_def by simp_all
    ultimately have "2 ^ Suc k \<le> n" "n < 2 ^ Suc (Suc k)"
      by simp_all
    then show ?thesis
      unfolding k1 using IH(1) b by simp
  qed
qed

text \<open>The binary exponent is not too large: \<open>2 ^ e \<le> \<bar>x\<bar>\<close>.\<close>

lemma binary_exponent_le:
  assumes "x \<noteq> 0"
  shows "2 powi (binary_exponent x) \<le> \<bar>x\<bar>"
proof -
  obtain p q where pq: "quotient_of \<bar>x\<bar> = (p, q)"
    by (cases "quotient_of \<bar>x\<bar>")
  have q: "0 < q"
    using quotient_of_denom_pos [OF pq] .
  have x: "\<bar>x\<bar> = of_int p / of_int q"
    using quotient_of_div [OF pq] .
  have p: "0 < p"
  proof -
    have "0 < \<bar>x\<bar>" using assms by simp
    then have "0 < (of_int p :: rat) / of_int q" unfolding x .
    with q show ?thesis by (simp add: zero_less_divide_iff)
  qed
  define e where "e = bit_length p - bit_length q"
  have be: "binary_exponent x = (if 2 powi e \<le> \<bar>x\<bar> then e else e - 1)"
    unfolding binary_exponent_def pq e_def by (simp add: Let_def)
  show ?thesis
  proof (cases "2 powi e \<le> \<bar>x\<bar>")
    case True
    then show ?thesis unfolding be by simp
  next
    case False
    from bit_length_bounds [OF p] have bp: "1 \<le> bit_length p" "2 ^ nat (bit_length p - 1) \<le> p"
      by simp_all
    from bit_length_bounds [OF q] have bq: "1 \<le> bit_length q" "q < 2 ^ nat (bit_length q)"
      by simp_all
    have 1: "(2::rat) powi (bit_length p - 1) \<le> of_int p"
    proof -
      have "(2::rat) powi (bit_length p - 1) = 2 ^ nat (bit_length p - 1)"
        using bp(1) by (simp add: power_int_def)
      also have "\<dots> = of_int (2 ^ nat (bit_length p - 1))" by simp
      also have "\<dots> \<le> of_int p" using bp(2) by (simp only: of_int_le_iff)
      finally show ?thesis .
    qed
    have 2: "of_int q \<le> (2::rat) powi (bit_length q)"
    proof -
      have "(2::rat) powi (bit_length q) = 2 ^ nat (bit_length q)"
        using bq(1) by (simp add: power_int_def)
      also have "\<dots> = of_int (2 ^ nat (bit_length q))" by simp
      finally have "(2::rat) powi (bit_length q) = of_int (2 ^ nat (bit_length q))" .
      moreover have "(of_int q :: rat) \<le> of_int (2 ^ nat (bit_length q))"
        using bq(2) by (simp only: of_int_le_iff)
      ultimately show ?thesis by simp
    qed
    have "(2::rat) powi (e - 1) = 2 powi (bit_length p - 1) / 2 powi (bit_length q)"
      unfolding e_def by (simp add: power_int_diff)
    also have "\<dots> \<le> of_int p / of_int q"
      by (rule frac_le) (use 1 2 p q in simp_all)
    finally show ?thesis
      using False unfolding be x by simp
  qed
qed

lemma binary_exponent_bound:
  assumes "x \<noteq> 0" and "\<bar>x\<bar> \<le> 2 ^ n"
  shows "binary_exponent x \<le> int n"
proof (rule ccontr)
  assume "\<not> binary_exponent x \<le> int n"
  then have "int n + 1 \<le> binary_exponent x" by simp
  then have "(2::rat) powi (int n + 1) \<le> 2 powi (binary_exponent x)"
    by (intro power_int_increasing) simp_all
  also have "\<dots> \<le> \<bar>x\<bar>" using binary_exponent_le [OF assms(1)] .
  also have "\<dots> \<le> 2 ^ n" using assms(2) .
  finally have "(2::rat) powi (int n + 1) \<le> 2 ^ n" .
  moreover have "(2::rat) powi (int n + 1) = 2 * 2 ^ n"
    by (simp add: power_int_add)
  ultimately show False by simp
qed

lemma round_half_even_of_int: "round_half_even (of_int k) = k"
  by (simp add: round_half_even_def)

text \<open>An integer of magnitude at most \<open>2 ^ 53\<close> is a binary64 value: rounding keeps it.\<close>

lemma round_double_of_int:
  assumes "\<bar>n\<bar> \<le> 2 ^ 53"
  shows "round_double (of_int n) = Finite (of_int n)"
proof (cases "n = 0")
  case True
  then show ?thesis by (simp add: round_double_def)
next
  case False
  define x :: rat where "x = of_int n"
  have x0: "x \<noteq> 0" using False by (simp add: x_def)
  have xb: "\<bar>x\<bar> \<le> 2 ^ 53"
  proof -
    have "\<bar>x\<bar> = of_int \<bar>n\<bar>" by (simp add: x_def)
    also have "\<dots> \<le> of_int (2 ^ 53)" using assms by (simp only: of_int_le_iff)
    finally show ?thesis by simp
  qed
  define E where "E = binary_exponent x"
  have E53: "E \<le> 53"
    using binary_exponent_bound [OF x0 xb] by (simp add: E_def)
  have Ele: "2 powi E \<le> \<bar>x\<bar>"
    unfolding E_def by (rule binary_exponent_le [OF x0])
  define e where "e = max E (- 1022)"
  have e: "e \<le> 53" "- 1022 \<le> e"
    using E53 by (simp_all add: e_def)
  define ulp :: rat where "ulp = 2 powi (e - 52)"
  have ulp0: "ulp \<noteq> 0" by (simp add: ulp_def)
  have "\<exists>k. x / ulp = of_int k"
  proof (cases "e \<le> 52")
    case True
    have "x / ulp = x * 2 powi (52 - e)"
      unfolding ulp_def by (simp add: power_int_diff)
    also have "\<dots> = x * 2 ^ nat (52 - e)"
      using True by (simp add: power_int_def)
    also have "\<dots> = of_int (n * 2 ^ nat (52 - e))"
      by (simp add: x_def)
    finally show ?thesis by blast
  next
    case False
    with e have e53: "e = 53" by simp
    then have "E = 53" unfolding e_def by (simp add: max_def split: if_splits)
    with Ele have "2 ^ 53 \<le> \<bar>x\<bar>" by simp
    with xb have "\<bar>x\<bar> = 2 ^ 53" by simp
    then have "\<bar>rat_of_int n\<bar> = rat_of_int (2 ^ 53)" by (simp add: x_def)
    then have "rat_of_int \<bar>n\<bar> = rat_of_int (2 ^ 53)" by simp
    then have n: "\<bar>n\<bar> = 2 ^ 53" by (simp only: of_int_eq_iff)
    have u: "ulp = 2" unfolding ulp_def e53 by simp
    have "even \<bar>n\<bar>" unfolding n by simp
    then have "even n" by simp
    then have "n = 2 * (n div 2)" by simp
    then have "x = 2 * of_int (n div 2)"
      unfolding x_def by (metis of_int_mult of_int_numeral)
    then have "x / ulp = of_int (n div 2)" unfolding u by simp
    then show ?thesis by blast
  qed
  then obtain k where k: "x / ulp = of_int k" by blast
  have y: "of_int (round_half_even (x / ulp)) * ulp = x"
  proof -
    have "of_int (round_half_even (x / ulp)) * ulp = of_int k * ulp"
      unfolding k round_half_even_of_int by (rule refl)
    also have "\<dots> = x / ulp * ulp" unfolding k by (rule refl)
    also have "\<dots> = x" using ulp0 by simp
    finally show ?thesis .
  qed
  have "\<not> 1024 \<le> binary_exponent x"
    using E53 by (simp add: E_def)
  then have "round_double x = Finite x"
    using x0 y unfolding round_double_def Let_def E_def [symmetric] e_def [symmetric] ulp_def [symmetric]
    by (simp add: E_def)
  then show ?thesis unfolding x_def .
qed

lemma number_add_of_int:
  assumes "\<bar>a + b\<bar> \<le> 2 ^ 53"
  shows "Finite (of_int a) + Finite (of_int b) = Finite (of_int (a + b))"
proof -
  have "Finite (of_int a) + Finite (of_int b) = round_double (of_int (a + b))"
    by (simp add: plus_number_def)
  then show ?thesis using round_double_of_int [OF assms] by simp
qed

lemma number_minus_of_int:
  assumes "\<bar>a - b\<bar> \<le> 2 ^ 53"
  shows "Finite (of_int a) - Finite (of_int b) = Finite (of_int (a - b))"
proof -
  have "Finite (of_int a) - Finite (of_int b) = round_double (of_int (a - b))"
    by (simp add: minus_number_def)
  then show ?thesis using round_double_of_int [OF assms] by simp
qed

lemma number_minus_whole:
  assumes "\<bar>b - int k\<bar> \<le> 2 ^ 53"
  shows "Finite (of_int b) - whole_number k = Finite (of_int (b - int k))"
  using number_minus_of_int [OF assms] by (simp add: whole_number_def)

lemma number_add_whole:
  assumes "\<bar>b + int k\<bar> \<le> 2 ^ 53"
  shows "Finite (of_int b) + whole_number k = Finite (of_int (b + int k))"
  using number_add_of_int [OF assms] by (simp add: whole_number_def)

lemma charges_map:
  "charges (map (map_GuestStayAccountEvent f) ws) = map f (charges ws)"
proof (induction ws)
  case Nil
  then show ?case by simp
next
  case (Cons w ws)
  then show ?case by (cases w) simp_all
qed

lemma payments_map:
  "payments (map (map_GuestStayAccountEvent f) ws) = map f (payments ws)"
proof (induction ws)
  case Nil
  then show ?case by simp
next
  case (Cons w ws)
  then show ?case by (cases w) simp_all
qed

lemma running_balance_whole:
  assumes "\<bar>b\<bar> + int (sum_list (charges ws)) + int (sum_list (payments ws)) \<le> 2 ^ 53"
  shows "running_balance (Finite (of_int b)) (map (map_GuestStayAccountEvent whole_number) ws) =
         Finite (of_int (b + int (sum_list (payments ws)) - int (sum_list (charges ws))))"
  using assms
proof (induction ws arbitrary: b)
  case Nil
  then show ?case by simp
next
  case (Cons w ws)
  show ?case
  proof (cases w)
    case (ChargeRecorded i k)
    have s: "\<bar>b - int k\<bar> \<le> 2 ^ 53"
      using Cons.prems ChargeRecorded by simp
    have n: "\<bar>b - int k\<bar> + int (sum_list (charges ws)) + int (sum_list (payments ws)) \<le> 2 ^ 53"
      using Cons.prems ChargeRecorded by simp
    have "running_balance (Finite (of_int b)) (map (map_GuestStayAccountEvent whole_number) (w # ws)) =
          running_balance (Finite (of_int (b - int k))) (map (map_GuestStayAccountEvent whole_number) ws)"
      unfolding ChargeRecorded
      by (simp add: number_minus_whole [OF s])
    also have "\<dots> = Finite (of_int (b - int k + int (sum_list (payments ws)) - int (sum_list (charges ws))))"
      using n by (rule Cons.IH)
    finally show ?thesis
      unfolding ChargeRecorded by (simp add: algebra_simps)
  next
    case (PaymentRecorded i k)
    have s: "\<bar>b + int k\<bar> \<le> 2 ^ 53"
      using Cons.prems PaymentRecorded by simp
    have n: "\<bar>b + int k\<bar> + int (sum_list (charges ws)) + int (sum_list (payments ws)) \<le> 2 ^ 53"
      using Cons.prems PaymentRecorded by simp
    have "running_balance (Finite (of_int b)) (map (map_GuestStayAccountEvent whole_number) (w # ws)) =
          running_balance (Finite (of_int (b + int k))) (map (map_GuestStayAccountEvent whole_number) ws)"
      unfolding PaymentRecorded
      by (simp add: number_add_whole [OF s])
    also have "\<dots> = Finite (of_int (b + int k + int (sum_list (payments ws)) - int (sum_list (charges ws))))"
      using n by (rule Cons.IH)
    finally show ?thesis
      unfolding PaymentRecorded by (simp add: algebra_simps)
  qed (use Cons in simp_all)
qed

lemma foldl_plus_whole:
  assumes "\<bar>b\<bar> + int (sum_list ks) \<le> 2 ^ 53"
  shows "foldl (+) (Finite (of_int b)) (map whole_number ks) = Finite (of_int (b + int (sum_list ks)))"
  using assms
proof (induction ks arbitrary: b)
  case Nil
  then show ?case by simp
next
  case (Cons k ks)
  have s: "\<bar>b + int k\<bar> \<le> 2 ^ 53"
    using Cons.prems by simp
  have n: "\<bar>b + int k\<bar> + int (sum_list ks) \<le> 2 ^ 53"
    using Cons.prems by simp
  have "foldl (+) (Finite (of_int b)) (map whole_number (k # ks)) =
        foldl (+) (Finite (of_int (b + int k))) (map whole_number ks)"
    by (simp add: number_add_whole [OF s])
  also have "\<dots> = Finite (of_int (b + int k + int (sum_list ks)))"
    using n by (rule Cons.IH)
  finally show ?case by (simp add: algebra_simps)
qed

lemma amounts_sum_whole:
  assumes "int (sum_list ks) \<le> 2 ^ 53"
  shows "amounts_sum (map whole_number ks) = Finite (of_int (int (sum_list ks)))"
  using foldl_plus_whole [of 0 ks] assms by (simp add: amounts_sum_def zero_number_def)

text \<open>
  C2, amended. Projecting a stream that starts with \<^verbatim>\<open>GuestCheckedIn\<close> and goes on with
  charges and payments in any interleaving gives a document with status \<^verbatim>\<open>CheckedIn\<close>,
  the count the number of charges plus the number of payments, the transactions the
  \<^verbatim>\<open>{id, amount}\<close> entries in event order, and \<^verbatim>\<open>checkedInAt\<close> the time of the check-in
  event. The balance is the running balance from 0 in event order, each charge
  subtracted and each payment added as the events come; this holds in every arithmetic
  of the amounts. With no charge and no payment the balance is 0 and the transactions are
  empty. For JavaScript numbers: when the amounts are whole numbers and their total is at
  most \<open>2 ^ 53\<close>, no operation rounds, and the balance is the sum of the payments minus the
  sum of the charges, both as JavaScript computes them and exactly. (The count is an
  integer here; as a JavaScript number it is exact for every stream of fewer than
  \<open>2 ^ 53\<close> events.)
\<close>

theorem project_checked_in_transactions:
  fixes es :: "'n::{zero,plus,minus} GuestStayAccountEvent list"
    and ws :: "nat GuestStayAccountEvent list"
  assumes "\<forall>e \<in> set es. isTransaction e"
  shows "project (GuestCheckedIn a g r t # es) =
         Stay \<lparr> doc_id = a, guestId = g, roomId = r, status = CheckedIn,
                balance = running_balance 0 es,
                transactionsCount = int (length (charges es)) + int (length (payments es)),
                transactions = entries es, checkedInAt = t, checkedOutAt = None,
                doc_version = None \<rparr>
         \<and> length (entries es) = length (charges es) + length (payments es)
         \<and> project [GuestCheckedIn a g r t :: 'n GuestStayAccountEvent] =
           Stay \<lparr> doc_id = a, guestId = g, roomId = r, status = CheckedIn,
                balance = 0, transactionsCount = 0,
                transactions = [], checkedInAt = t, checkedOutAt = None,
                doc_version = None \<rparr>
         \<and> (sum_list (charges ws) + sum_list (payments ws) \<le> 2 ^ 53 \<longrightarrow>
              running_balance 0 (map (map_GuestStayAccountEvent whole_number) ws) =
                amounts_sum (payments (map (map_GuestStayAccountEvent whole_number) ws)) -
                amounts_sum (charges (map (map_GuestStayAccountEvent whole_number) ws)) \<and>
              running_balance 0 (map (map_GuestStayAccountEvent whole_number) ws) =
                Finite (of_nat (sum_list (payments ws)) - of_nat (sum_list (charges ws))))"
proof -
  let ?d = "\<lparr> doc_id = a, guestId = g, roomId = r, status = CheckedIn,
                balance = 0::'n, transactionsCount = 0,
                transactions = [], checkedInAt = t, checkedOutAt = None,
                doc_version = None \<rparr>"
  have n: "int (length (charges es)) + int (length (payments es)) = int (length es)"
    using length_charges_payments [OF assms] by linarith
  have "project (GuestCheckedIn a g r t # es) = foldl evolve (Stay ?d) es"
    by (simp add: project_def initialState_def)
  also have "\<dots> = Stay (?d \<lparr> balance := running_balance (balance ?d) es,
                   transactionsCount := transactionsCount ?d + int (length es),
                   transactions := transactions ?d @ entries es \<rparr>)"
    using assms by (intro foldl_evolve_transactions) simp_all
  finally have 1: "project (GuestCheckedIn a g r t # es) =
         Stay \<lparr> doc_id = a, guestId = g, roomId = r, status = CheckedIn,
                balance = running_balance 0 es,
                transactionsCount = int (length (charges es)) + int (length (payments es)),
                transactions = entries es, checkedInAt = t, checkedOutAt = None,
                doc_version = None \<rparr>"
    using n by simp
  have 2: "length (entries es) = length (charges es) + length (payments es)"
    using length_entries [OF assms] length_charges_payments [OF assms] by simp
  have 3: "project [GuestCheckedIn a g r t :: 'n GuestStayAccountEvent] = Stay ?d"
    by (simp add: project_def initialState_def)
  have 4: "running_balance 0 (map (map_GuestStayAccountEvent whole_number) ws) =
                amounts_sum (payments (map (map_GuestStayAccountEvent whole_number) ws)) -
                amounts_sum (charges (map (map_GuestStayAccountEvent whole_number) ws)) \<and>
           running_balance 0 (map (map_GuestStayAccountEvent whole_number) ws) =
                Finite (of_nat (sum_list (payments ws)) - of_nat (sum_list (charges ws)))"
    if b: "sum_list (charges ws) + sum_list (payments ws) \<le> 2 ^ 53"
  proof -
    define C where "C = int (sum_list (charges ws))"
    define P where "P = int (sum_list (payments ws))"
    have "int (sum_list (charges ws) + sum_list (payments ws)) \<le> int (2 ^ 53)"
      using b by (simp only: of_nat_le_iff)
    then have CP: "C + P \<le> 2 ^ 53"
      by (simp add: C_def P_def)
    have C0: "0 \<le> C" and P0: "0 \<le> P"
      by (simp_all add: C_def P_def)
    have "running_balance (Finite (of_int 0)) (map (map_GuestStayAccountEvent whole_number) ws) =
          Finite (of_int (0 + int (sum_list (payments ws)) - int (sum_list (charges ws))))"
      by (rule running_balance_whole) (use CP in \<open>simp add: C_def P_def\<close>)
    then have r: "running_balance 0 (map (map_GuestStayAccountEvent whole_number) ws) = Finite (of_int (P - C))"
      by (simp add: zero_number_def C_def P_def)
    have tp: "amounts_sum (payments (map (map_GuestStayAccountEvent whole_number) ws)) = Finite (of_int P)"
      unfolding payments_map P_def by (rule amounts_sum_whole) (use CP C0 in \<open>simp add: C_def P_def\<close>)
    have tc: "amounts_sum (charges (map (map_GuestStayAccountEvent whole_number) ws)) = Finite (of_int C)"
      unfolding charges_map C_def by (rule amounts_sum_whole) (use CP P0 in \<open>simp add: C_def P_def\<close>)
    have "\<bar>P - C\<bar> \<le> 2 ^ 53"
      using CP C0 P0 by linarith
    then have "Finite (of_int P) - Finite (of_int C) = Finite (of_int (P - C))"
      by (rule number_minus_of_int)
    then have "running_balance 0 (map (map_GuestStayAccountEvent whole_number) ws) =
                amounts_sum (payments (map (map_GuestStayAccountEvent whole_number) ws)) -
                amounts_sum (charges (map (map_GuestStayAccountEvent whole_number) ws))"
      unfolding r tp tc by simp
    moreover have "running_balance 0 (map (map_GuestStayAccountEvent whole_number) ws) =
                Finite (of_nat (sum_list (payments ws)) - of_nat (sum_list (charges ws)))"
      unfolding r by (simp add: C_def P_def)
    ultimately show ?thesis by (rule conjI)
  qed
  have 5: "sum_list (charges ws) + sum_list (payments ws) \<le> 2 ^ 53 \<longrightarrow>
              running_balance 0 (map (map_GuestStayAccountEvent whole_number) ws) =
                amounts_sum (payments (map (map_GuestStayAccountEvent whole_number) ws)) -
                amounts_sum (charges (map (map_GuestStayAccountEvent whole_number) ws)) \<and>
              running_balance 0 (map (map_GuestStayAccountEvent whole_number) ws) =
                Finite (of_nat (sum_list (payments ws)) - of_nat (sum_list (charges ws)))"
    by (rule impI) (rule 4)
  from 1 2 3 5 show ?thesis
    by (intro conjI)
qed

theorem project_checked_in_transactions_witness:
  "isTransaction (ChargeRecorded ''c1'' (Finite 50)) \<and>
   isTransaction (PaymentRecorded ''p1'' (Finite 20)) \<and>
   isTransaction (ChargeRecorded ''c2'' (Finite 5)) \<and>
   sum_list (charges [ChargeRecorded ''c1'' (50::nat), PaymentRecorded ''p1'' 20, ChargeRecorded ''c2'' 5]) +
   sum_list (payments [ChargeRecorded ''c1'' (50::nat), PaymentRecorded ''p1'' 20, ChargeRecorded ''c2'' 5])
     \<le> 2 ^ 53 \<and>
   project [GuestCheckedIn ''a'' ''g'' ''r'' 10, ChargeRecorded ''c1'' (Finite 50),
            PaymentRecorded ''p1'' (Finite 20), ChargeRecorded ''c2'' (Finite 5)] =
   Stay \<lparr> doc_id = ''a'', guestId = ''g'', roomId = ''r'', status = CheckedIn,
          balance = Finite (- 35), transactionsCount = 3,
          transactions = [(''c1'', Finite 50), (''p1'', Finite 20), (''c2'', Finite 5)],
          checkedInAt = 10, checkedOutAt = None, doc_version = None \<rparr>"
proof -
  let ?ws = "[ChargeRecorded ''c1'' (50::nat), PaymentRecorded ''p1'' 20, ChargeRecorded ''c2'' 5]"
  let ?es = "[ChargeRecorded ''c1'' (Finite 50), PaymentRecorded ''p1'' (Finite 20),
              ChargeRecorded ''c2'' (Finite 5)]"
  have m: "map (map_GuestStayAccountEvent whole_number) ?ws = ?es"
    by (simp add: whole_number_def)
  have h: "\<forall>e \<in> set ?es. isTransaction e"
    by simp
  have b: "sum_list (charges ?ws) + sum_list (payments ?ws) \<le> 2 ^ 53"
    by simp
  note t = project_checked_in_transactions [where es = ?es and ws = ?ws and a = "''a''"
      and g = "''g''" and r = "''r''" and t = 10, OF h]
  have 1: "project (GuestCheckedIn ''a'' ''g'' ''r'' 10 # ?es) =
         Stay \<lparr> doc_id = ''a'', guestId = ''g'', roomId = ''r'', status = CheckedIn,
                balance = running_balance 0 ?es,
                transactionsCount = int (length (charges ?es)) + int (length (payments ?es)),
                transactions = entries ?es, checkedInAt = 10, checkedOutAt = None,
                doc_version = None \<rparr>"
    using t [THEN conjunct1] .
  have "running_balance 0 (map (map_GuestStayAccountEvent whole_number) ?ws) =
          Finite (of_nat (sum_list (payments ?ws)) - of_nat (sum_list (charges ?ws)))"
    using t [THEN conjunct2, THEN conjunct2, THEN conjunct2, THEN mp, OF b, THEN conjunct2] .
  then have 2: "running_balance 0 ?es = Finite (- 35)"
    unfolding m by simp
  show ?thesis
    using b unfolding 1 2 by simp
qed

text \<open>
  The claim as stated fails for JavaScript numbers. The charges 10000000000000000 and 1
  and the payment 10000000000000000 give the balance 0 when the payment comes last and
  the balance -1 when the charge of 1 comes last: with the balance at -10000000000000000
  the charge of 1 is lost in the rounding. The sum of the payments minus the sum of the
  charges, as JavaScript computes them, is 0.
\<close>

theorem project_checked_in_transactions_counterexample:
  "project [GuestCheckedIn ''a'' ''g'' ''r'' 10, ChargeRecorded ''c1'' (Finite 10000000000000000),
            ChargeRecorded ''c2'' (Finite 1), PaymentRecorded ''p1'' (Finite 10000000000000000)] =
   Stay \<lparr> doc_id = ''a'', guestId = ''g'', roomId = ''r'', status = CheckedIn,
          balance = Finite 0, transactionsCount = 3,
          transactions = [(''c1'', Finite 10000000000000000), (''c2'', Finite 1),
                          (''p1'', Finite 10000000000000000)],
          checkedInAt = 10, checkedOutAt = None, doc_version = None \<rparr> \<and>
   project [GuestCheckedIn ''a'' ''g'' ''r'' 10, ChargeRecorded ''c1'' (Finite 10000000000000000),
            PaymentRecorded ''p1'' (Finite 10000000000000000), ChargeRecorded ''c2'' (Finite 1)] =
   Stay \<lparr> doc_id = ''a'', guestId = ''g'', roomId = ''r'', status = CheckedIn,
          balance = Finite (- 1), transactionsCount = 3,
          transactions = [(''c1'', Finite 10000000000000000), (''p1'', Finite 10000000000000000),
                          (''c2'', Finite 1)],
          checkedInAt = 10, checkedOutAt = None, doc_version = None \<rparr> \<and>
   amounts_sum [Finite 10000000000000000] - amounts_sum [Finite 10000000000000000, Finite 1] = Finite 0"
  by code_simp


section \<open>Properties of the check-out decision\<close>

text \<open>
  C1. The check-out decision emits \<^verbatim>\<open>GuestCheckedOut\<close> if and only if the account
  is \<^verbatim>\<open>Opened\<close> with balance 0. On an \<^verbatim>\<open>Opened\<close> account with another balance it
  succeeds with the one event \<^verbatim>\<open>GuestCheckoutFailed\<close>, and evolving the account by
  that event leaves it as it was. On a \<^verbatim>\<open>CheckedOut\<close> account it succeeds with no
  event. On a \<^verbatim>\<open>NotExisting\<close> account it fails with a domain rule violation.
\<close>

theorem checkOut_decision:
  fixes s :: "'n::{zero,plus,minus} GuestStayAccount" and b :: 'n
  shows "((\<exists>es t'. checkOut (CheckOut i now) s = Inr es \<and> GuestCheckedOut t' \<in> set es) \<longleftrightarrow>
            (\<exists>g r t. s = Opened g r t 0)) \<and>
         (b \<noteq> 0 \<longrightarrow>
            (\<exists>reason. checkOut (CheckOut i now) (Opened g r t b) = Inr [GuestCheckoutFailed reason] \<and>
               foldl account_evolve (Opened g r t b) [GuestCheckoutFailed reason] = Opened g r t b)) \<and>
         checkOut (CheckOut i now) (Account_CheckedOut g r t b t'') = (Inr [] :: error + 'n GuestStayAccountEvent list) \<and>
         (\<exists>msg. checkOut (CheckOut i now) (Account_NotExisting :: 'n GuestStayAccount) = Inl (IllegalStateError msg))"
proof -
  have "(\<exists>es t'. checkOut (CheckOut i now) s = Inr es \<and> GuestCheckedOut t' \<in> set es) \<longleftrightarrow>
        (\<exists>g r t. s = Opened g r t 0)"
    by (cases s) auto
  then show ?thesis by simp
qed

theorem checkOut_decision_witness:
  "(- 50 :: int) \<noteq> 0 \<and>
   checkOut (CheckOut ''a'' 30) (Opened ''g'' ''r'' 10 (- 50 :: int)) = Inr [GuestCheckoutFailed ''balance not settled''] \<and>
   foldl account_evolve (Opened ''g'' ''r'' 10 (- 50 :: int)) [GuestCheckoutFailed ''balance not settled'']
     = Opened ''g'' ''r'' 10 (- 50) \<and>
   checkOut (CheckOut ''a'' 30) (Opened ''g'' ''r'' 10 (0 :: int)) = Inr [GuestCheckedOut 30]"
  using checkOut_decision [of "''a''" 30 "Opened ''g'' ''r'' 10 (0 :: int)" "- 50" "''g''" "''r''" 10 20]
  by simp

section \<open>Properties of the routes\<close>

lemma assertPositiveNumber_Inr:
  "assertPositiveNumber v = Inr a \<longleftrightarrow> a = v \<and> isPositive v"
  by (cases v) (auto simp: assertPositiveNumber_def isNumber_def zero_number_def)

lemma assertPositiveNumber_Inl:
  "\<not> isPositive v \<Longrightarrow> assertPositiveNumber v = Inl (ValidationError ''NOT_A_POSITIVE_NUMBER'')"
  by (cases v) (auto simp: assertPositiveNumber_def isNumber_def zero_number_def)

lemma parseDate_error_shape:
  "(case parseDateFromUtcYYYYMMDD s of
      Inl e \<Rightarrow> e = ValidationError ''Invalid date format, must be yyyy-mm-dd''
    | Inr d \<Rightarrow> True)"
  unfolding parseDateFromUtcYYYYMMDD_def Let_def
  by (simp split: list.split)

lemma parseDate_error:
  "parseDateFromUtcYYYYMMDD s = Inl e \<Longrightarrow> \<exists>msg. e = ValidationError msg"
  using parseDate_error_shape [of s] by simp

lemma assertNotEmptyString_error:
  "assertNotEmptyString v = Inl e \<Longrightarrow> \<exists>msg. e = ValidationError msg"
  by (auto simp: assertNotEmptyString_def split: option.splits if_splits)

lemma parseGuestStayAccountId_error:
  "parseGuestStayAccountId key ps = Inl e \<Longrightarrow> \<exists>msg. e = ValidationError msg"
  unfolding parseGuestStayAccountId_def
  by (auto split: sum.splits dest: assertNotEmptyString_error parseDate_error)


lemma parseDate_example: "parseDateFromUtcYYYYMMDD ''2026-11-03'' = Inr 1793664000000"
  by code_simp

lemma format_example: "formatDateToUtcYYYYMMDD 1793700000000 = ''2026-11-03''"
  by code_simp

lemma parse_example:
  "parseGuestStayAccountId key
     \<lparr> param_guestId = Some ''g1'', param_roomId = Some ''r1'', param_checkInDate = Some ''2026-11-03'' \<rparr>
   = Inr (key ''g1'' ''r1'' 20760)"
  by (simp add: parseGuestStayAccountId_def assertNotEmptyString_def parseDate_example
      toGuestStayAccountId_def utcDay_def)

lemma dayKey_example: "dayKey ''g1'' ''r1'' 20760 = ''g1-r1-2026-11-03''"
  by code_simp

text \<open>
  C3. For the account id of the request, the stay-detail query answers not-found exactly
  when the collection has no document for the id or the document's status is not
  \<^verbatim>\<open>CheckedIn\<close> (a checked-out document is stored and still reported not-found).
  Otherwise it answers success: the body is the document without \<^verbatim>\<open>_version\<close> and
  the entity tag is \<^verbatim>\<open>toWeakETag(_version)\<close>. The answer is a function of the
  document stored under the id alone: the event streams are not read.
\<close>

theorem getDetailsRoute_not_found_iff:
  assumes "parseGuestStayAccountId key ps = Inr i"
  shows "(getDetailsRoute key toWeakETag db ps = Inr NotFound \<longleftrightarrow>
            (guestStayDetailsCollection db i = None \<or>
             (\<exists>doc. guestStayDetailsCollection db i = Some doc \<and> \<not> isCheckedIn doc))) \<and>
         (\<forall>d. guestStayDetailsCollection db i = Some (Stay d) \<and> status d = CheckedIn \<longrightarrow>
            getDetailsRoute key toWeakETag db ps =
              Inr (OK (without_version d) (toWeakETag (doc_version d)))) \<and>
         (\<forall>db'. guestStayDetailsCollection db' i = guestStayDetailsCollection db i \<longrightarrow>
            getDetailsRoute key toWeakETag db' ps = getDetailsRoute key toWeakETag db ps)"
  using assms
  by (auto simp: getDetailsRoute_def getGuestStayDetails_def isCheckedIn_def
      split: option.splits GuestStayDetails.splits)

theorem getDetailsRoute_not_found_iff_witness:
  "parseGuestStayAccountId dayKey
     \<lparr> param_guestId = Some ''g1'', param_roomId = Some ''r1'', param_checkInDate = Some ''2026-11-03'' \<rparr>
     = Inr ''g1-r1-2026-11-03'' \<and>
   getDetailsRoute dayKey (\<lambda>version. version)
     \<lparr> streams = (\<lambda>i. []),
       guestStayDetailsCollection = [''g1-r1-2026-11-03'' \<mapsto> Stay \<lparr> doc_id = ''g1-r1-2026-11-03'',
         guestId = ''g1'', roomId = ''r1'', status = CheckedIn, balance = (- 50 :: int),
         transactionsCount = 1, transactions = [(''c1'', 50)], checkedInAt = 1793700000000,
         checkedOutAt = None, doc_version = Some 2 \<rparr>] \<rparr>
     \<lparr> param_guestId = Some ''g1'', param_roomId = Some ''r1'', param_checkInDate = Some ''2026-11-03'' \<rparr>
   = Inr (OK \<lparr> doc_id = ''g1-r1-2026-11-03'', guestId = ''g1'',
         roomId = ''r1'', status = CheckedIn, balance = - 50, transactionsCount = 1,
         transactions = [(''c1'', 50)], checkedInAt = 1793700000000, checkedOutAt = None \<rparr> (Some 2)) \<and>
   getDetailsRoute dayKey (\<lambda>version. version)
     \<lparr> streams = (\<lambda>i. []),
       guestStayDetailsCollection = [''g1-r1-2026-11-03'' \<mapsto> Stay \<lparr> doc_id = ''g1-r1-2026-11-03'',
         guestId = ''g1'', roomId = ''r1'', status = CheckedOut, balance = (0 :: int),
         transactionsCount = 2, transactions = [(''c1'', 50), (''p1'', 50)],
         checkedInAt = 1793700000000, checkedOutAt = Some 1793700000001,
         doc_version = Some 4 \<rparr>] \<rparr>
     \<lparr> param_guestId = Some ''g1'', param_roomId = Some ''r1'', param_checkInDate = Some ''2026-11-03'' \<rparr>
   = Inr NotFound \<and>
   getDetailsRoute dayKey (\<lambda>version. version)
     \<lparr> streams = (\<lambda>i. []), guestStayDetailsCollection = (Map.empty :: string \<rightharpoonup> int GuestStayDetails) \<rparr>
     \<lparr> param_guestId = Some ''g1'', param_roomId = Some ''r1'', param_checkInDate = Some ''2026-11-03'' \<rparr>
   = Inr NotFound"
proof -
  let ?ps = "\<lparr> param_guestId = Some ''g1'', param_roomId = Some ''r1'',
               param_checkInDate = Some ''2026-11-03'' \<rparr>"
  let ?i = "''g1-r1-2026-11-03''"
  let ?d1 = "\<lparr> doc_id = ?i, guestId = ''g1'', roomId = ''r1'', status = CheckedIn,
         balance = (- 50 :: int), transactionsCount = 1, transactions = [(''c1'', 50)],
         checkedInAt = 1793700000000, checkedOutAt = None, doc_version = Some 2 \<rparr>"
  let ?d2 = "\<lparr> doc_id = ?i, guestId = ''g1'', roomId = ''r1'', status = CheckedOut,
         balance = (0 :: int), transactionsCount = 2, transactions = [(''c1'', 50), (''p1'', 50)],
         checkedInAt = 1793700000000, checkedOutAt = Some 1793700000001, doc_version = Some 4 \<rparr>"
  have p: "parseGuestStayAccountId dayKey ?ps = Inr ?i"
    by (simp add: parse_example dayKey_example)
  note t = getDetailsRoute_not_found_iff [OF p, where toWeakETag = "\<lambda>version. version"]
  have 1: "getDetailsRoute dayKey (\<lambda>version. version)
             \<lparr> streams = (\<lambda>i. []), guestStayDetailsCollection = [?i \<mapsto> Stay ?d1] \<rparr> ?ps
           = Inr (OK (without_version ?d1) (doc_version ?d1))"
    using t [where db = "\<lparr> streams = (\<lambda>i. []), guestStayDetailsCollection = [?i \<mapsto> Stay ?d1] \<rparr>",
        THEN conjunct2, THEN conjunct1, THEN spec, of ?d1]
    by simp
  have 2: "getDetailsRoute dayKey (\<lambda>version. version)
             \<lparr> streams = (\<lambda>i. []), guestStayDetailsCollection = [?i \<mapsto> Stay ?d2] \<rparr> ?ps
           = Inr NotFound"
    using t [where db = "\<lparr> streams = (\<lambda>i. []), guestStayDetailsCollection = [?i \<mapsto> Stay ?d2] \<rparr>",
        THEN conjunct1]
    by (simp add: isCheckedIn_def)
  have 3: "getDetailsRoute dayKey (\<lambda>version. version)
             \<lparr> streams = (\<lambda>i. []),
               guestStayDetailsCollection = (Map.empty :: string \<rightharpoonup> int GuestStayDetails) \<rparr> ?ps
           = Inr NotFound"
    using t [where db = "\<lparr> streams = (\<lambda>i. []),
               guestStayDetailsCollection = (Map.empty :: string \<rightharpoonup> int GuestStayDetails) \<rparr>",
        THEN conjunct1]
    by simp
  from p 1 2 3 show ?thesis
    by (simp add: without_version_def)
qed

text \<open>
  C10. When both route parameters are non-empty strings and \<^verbatim>\<open>doesGuestStayExist\<close>
  answers false, the check-in route answers Forbidden and the database is the one it
  was given, whatever the command handler and the decision are: neither is reached, no
  event is appended and no document is written.
\<close>

theorem checkInRoute_forbidden:
  assumes "assertNotEmptyString (param_guestId ps) = Inr g"
    and "assertNotEmptyString (param_roomId ps) = Inr r"
    and "\<not> doesGuestStayExist g r now"
  shows "checkInRoute handle decide key doesGuestStayExist now db ps = Inr (Forbidden None, db)"
  using assms by (simp add: checkInRoute_def)

theorem checkInRoute_forbidden_witness:
  "assertNotEmptyString (Some ''g1'') = Inr ''g1'' \<and>
   assertNotEmptyString (Some ''r1'') = Inr ''r1'' \<and>
   checkInRoute (\<lambda>db i decide. Inl (ConcurrencyError ''unused'')) (\<lambda>command (state :: unit). Inr [])
     (\<lambda>g r d. g @ ''-'' @ r) (\<lambda>g r d. False) 1793700000000
     \<lparr> streams = (\<lambda>i. [] :: int GuestStayAccountEvent list), guestStayDetailsCollection = Map.empty \<rparr>
     \<lparr> param_guestId = Some ''g1'', param_roomId = Some ''r1'', param_checkInDate = None \<rparr>
   = Inr (Forbidden None,
      \<lparr> streams = (\<lambda>i. []), guestStayDetailsCollection = Map.empty \<rparr>)"
proof -
  have g: "assertNotEmptyString (param_guestId \<lparr> param_guestId = Some ''g1'', param_roomId = Some ''r1'',
             param_checkInDate = None \<rparr>) = Inr ''g1''"
    by (simp add: assertNotEmptyString_def)
  have r: "assertNotEmptyString (param_roomId \<lparr> param_guestId = Some ''g1'', param_roomId = Some ''r1'',
             param_checkInDate = None \<rparr>) = Inr ''r1''"
    by (simp add: assertNotEmptyString_def)
  have n: "\<not> (\<lambda>(g :: string) (r :: string) (d :: Date). False) ''g1'' ''r1'' 1793700000000"
    by simp
  show ?thesis
    using checkInRoute_forbidden [OF g r, where doesGuestStayExist = "\<lambda>g r d. False", OF n] g r
    by simp
qed

text \<open>
  C4. When the command handler returns the new events of a check-out, the route answers
  no-content if there is no new event or the first one is not
  \<^verbatim>\<open>GuestCheckoutFailed\<close>; it answers Forbidden, with the event's reason as the
  problem detail, exactly when the first new event is \<^verbatim>\<open>GuestCheckoutFailed\<close>.
\<close>

theorem checkOutRoute_response:
  assumes "parseGuestStayAccountId key ps = Inr i"
    and "handle db i (decide (CheckOut i now)) = Inr (newEvents, db')"
  shows "\<exists>resp. checkOutRoute handle decide key now db ps = Inr (resp, db') \<and>
           (newEvents = [] \<longrightarrow> resp = NoContent) \<and>
           (\<forall>e rest. newEvents = e # rest \<and> (\<forall>reason. e \<noteq> GuestCheckoutFailed reason)
              \<longrightarrow> resp = NoContent) \<and>
           (\<forall>reason rest. newEvents = GuestCheckoutFailed reason # rest
              \<longrightarrow> resp = Forbidden (Some reason)) \<and>
           (\<forall>detail. resp = Forbidden detail \<longrightarrow>
              (\<exists>reason rest. newEvents = GuestCheckoutFailed reason # rest \<and> detail = Some reason))"
  using assms
  by (auto simp: checkOutRoute_def split: list.splits GuestStayAccountEvent.splits)

theorem checkOutRoute_response_witness:
  "map_sum id fst (checkOutRoute handle_single_writer checkOut dayKey 1793700000001
     \<lparr> streams = (\<lambda>i. [GuestCheckedIn ''g1-r1-2026-11-03'' ''g1'' ''r1'' 1793700000000,
                        ChargeRecorded ''c1'' (50 :: int)]),
       guestStayDetailsCollection = Map.empty \<rparr>
     \<lparr> param_guestId = Some ''g1'', param_roomId = Some ''r1'', param_checkInDate = Some ''2026-11-03'' \<rparr>)
   = Inr (Forbidden (Some ''balance not settled'') :: ('b, 't) response) \<and>
   map_sum id fst (checkOutRoute handle_single_writer checkOut dayKey 1793700000001
     \<lparr> streams = (\<lambda>i. [GuestCheckedIn ''g1-r1-2026-11-03'' ''g1'' ''r1'' 1793700000000,
                        ChargeRecorded ''c1'' (50 :: int), PaymentRecorded ''p1'' 50]),
       guestStayDetailsCollection = Map.empty \<rparr>
     \<lparr> param_guestId = Some ''g1'', param_roomId = Some ''r1'', param_checkInDate = Some ''2026-11-03'' \<rparr>)
   = Inr (NoContent :: ('b, 't) response) \<and>
   map_sum id fst (checkOutRoute handle_single_writer checkOut dayKey 1793700000002
     \<lparr> streams = (\<lambda>i. [GuestCheckedIn ''g1-r1-2026-11-03'' ''g1'' ''r1'' 1793700000000,
                        ChargeRecorded ''c1'' (50 :: int), PaymentRecorded ''p1'' 50,
                        GuestCheckedOut 1793700000001]),
       guestStayDetailsCollection = Map.empty \<rparr>
     \<lparr> param_guestId = Some ''g1'', param_roomId = Some ''r1'', param_checkInDate = Some ''2026-11-03'' \<rparr>)
   = Inr (NoContent :: ('b, 't) response)"
proof -
  let ?ps = "\<lparr> param_guestId = Some ''g1'', param_roomId = Some ''r1'',
               param_checkInDate = Some ''2026-11-03'' \<rparr>"
  let ?i = "''g1-r1-2026-11-03''"
  let ?s1 = "[GuestCheckedIn ?i ''g1'' ''r1'' 1793700000000, ChargeRecorded ''c1'' (50 :: int)]"
  let ?s2 = "[GuestCheckedIn ?i ''g1'' ''r1'' 1793700000000, ChargeRecorded ''c1'' (50 :: int),
              PaymentRecorded ''p1'' 50]"
  let ?s3 = "[GuestCheckedIn ?i ''g1'' ''r1'' 1793700000000, ChargeRecorded ''c1'' (50 :: int),
              PaymentRecorded ''p1'' 50, GuestCheckedOut 1793700000001]"
  let ?db1 = "\<lparr> streams = (\<lambda>i. ?s1), guestStayDetailsCollection = Map.empty \<rparr>"
  let ?db2 = "\<lparr> streams = (\<lambda>i. ?s2), guestStayDetailsCollection = Map.empty \<rparr>"
  let ?db3 = "\<lparr> streams = (\<lambda>i. ?s3), guestStayDetailsCollection = Map.empty \<rparr>"
  have p: "parseGuestStayAccountId dayKey ?ps = Inr ?i"
    by (simp add: parse_example dayKey_example)
  note t = checkOutRoute_response [where handle = handle_single_writer and decide = checkOut
      and key = dayKey and ps = ?ps and i = ?i, OF p]
  have h1: "handle_single_writer ?db1 ?i (checkOut (CheckOut ?i 1793700000001))
            = Inr ([GuestCheckoutFailed ''balance not settled''],
                   ?db1 \<lparr> streams := (streams ?db1)(?i := ?s1 @ [GuestCheckoutFailed ''balance not settled'']) \<rparr>)"
    by (simp add: handle_single_writer_def)
  have h2: "handle_single_writer ?db2 ?i (checkOut (CheckOut ?i 1793700000001))
            = Inr ([GuestCheckedOut 1793700000001],
                   ?db2 \<lparr> streams := (streams ?db2)(?i := ?s2 @ [GuestCheckedOut 1793700000001]) \<rparr>)"
    by (simp add: handle_single_writer_def)
  have h3: "handle_single_writer ?db3 ?i (checkOut (CheckOut ?i 1793700000002))
            = Inr ([], ?db3 \<lparr> streams := (streams ?db3)(?i := ?s3 @ []) \<rparr>)"
    by (simp add: handle_single_writer_def)
  have "\<exists>resp :: ('b, 't) response.
          checkOutRoute handle_single_writer checkOut dayKey 1793700000001 ?db1 ?ps
            = Inr (resp, ?db1 \<lparr> streams := (streams ?db1)
                (?i := ?s1 @ [GuestCheckoutFailed ''balance not settled'']) \<rparr>) \<and>
          resp = Forbidden (Some ''balance not settled'')"
    using t [OF h1] by simp
  then have 1: "map_sum id fst (checkOutRoute handle_single_writer checkOut dayKey 1793700000001 ?db1 ?ps)
           = Inr (Forbidden (Some ''balance not settled'') :: ('b, 't) response)"
    by auto
  have "\<exists>resp :: ('b, 't) response.
          checkOutRoute handle_single_writer checkOut dayKey 1793700000001 ?db2 ?ps
            = Inr (resp, ?db2 \<lparr> streams := (streams ?db2)
                (?i := ?s2 @ [GuestCheckedOut 1793700000001]) \<rparr>) \<and>
          resp = NoContent"
    using t [OF h2] by simp
  then have 2: "map_sum id fst (checkOutRoute handle_single_writer checkOut dayKey 1793700000001 ?db2 ?ps)
           = Inr (NoContent :: ('b, 't) response)"
    by auto
  have "\<exists>resp :: ('b, 't) response.
          checkOutRoute handle_single_writer checkOut dayKey 1793700000002 ?db3 ?ps
            = Inr (resp, ?db3 \<lparr> streams := (streams ?db3)(?i := ?s3 @ []) \<rparr>) \<and>
          resp = NoContent"
    using t [OF h3] by simp
  then have 3: "map_sum id fst (checkOutRoute handle_single_writer checkOut dayKey 1793700000002 ?db3 ?ps)
           = Inr (NoContent :: ('b, 't) response)"
    by auto
  from 1 2 3 show ?thesis
    by (intro conjI)
qed

lemma recordChargeRoute_rejects:
  assumes "\<not> isPositive (toNumber v)"
  shows "\<exists>msg. \<forall>handle decide.
           recordChargeRoute handle decide key toNumber generateId now db ps v = Inl (ValidationError msg)"
proof (cases "parseGuestStayAccountId key ps")
  case (Inl e)
  then obtain msg where "e = ValidationError msg"
    using parseGuestStayAccountId_error by blast
  with Inl show ?thesis by (simp add: recordChargeRoute_def)
next
  case (Inr i)
  then show ?thesis
    using assertPositiveNumber_Inl [OF assms] by (simp add: recordChargeRoute_def)
qed

lemma recordPaymentRoute_rejects:
  assumes "\<not> isPositive (toNumber v)"
  shows "\<exists>msg. \<forall>handle decide.
           recordPaymentRoute handle decide key toNumber generateId now db ps v = Inl (ValidationError msg)"
proof (cases "parseGuestStayAccountId key ps")
  case (Inl e)
  then obtain msg where "e = ValidationError msg"
    using parseGuestStayAccountId_error by blast
  with Inl show ?thesis by (simp add: recordPaymentRoute_def)
next
  case (Inr i)
  then show ?thesis
    using assertPositiveNumber_Inl [OF assms] by (simp add: recordPaymentRoute_def)
qed

lemma recordChargeRoute_accepts:
  assumes "isPositive (toNumber v)" and "parseGuestStayAccountId key ps = Inr i"
  shows "recordChargeRoute h d key toNumber generateId now db ps v =
         (case h db i (d (RecordCharge (generateId ''charge'') i (toNumber v) now)) of
            Inl e \<Rightarrow> Inl e
          | Inr (newEvents, db') \<Rightarrow> Inr (NoContent, db'))"
proof -
  have "assertPositiveNumber (toNumber v) = Inr (toNumber v)"
    using assms(1) by (simp add: assertPositiveNumber_Inr)
  then show ?thesis
    using assms(2) by (simp add: recordChargeRoute_def)
qed

lemma recordPaymentRoute_accepts:
  assumes "isPositive (toNumber v)" and "parseGuestStayAccountId key ps = Inr i"
  shows "recordPaymentRoute h d key toNumber generateId now db ps v =
         (case h db i (d (RecordPayment (generateId ''payment'') i (toNumber v) now)) of
            Inl e \<Rightarrow> Inl e
          | Inr (newEvents, db') \<Rightarrow> Inr (NoContent, db'))"
proof -
  have "assertPositiveNumber (toNumber v) = Inr (toNumber v)"
    using assms(1) by (simp add: assertPositiveNumber_Inr)
  then show ?thesis
    using assms(2) by (simp add: recordPaymentRoute_def)
qed

lemma recordChargeRoute_decide_cong:
  assumes "\<forall>c. isPositive (charge_amount c) \<longrightarrow> d c = d' c"
  shows "recordChargeRoute h d key toNumber generateId now db ps v =
         recordChargeRoute h d' key toNumber generateId now db ps v"
proof (cases "parseGuestStayAccountId key ps")
  case (Inl e)
  then show ?thesis by (simp add: recordChargeRoute_def)
next
  case (Inr i)
  show ?thesis
  proof (cases "isPositive (toNumber v)")
    case True
    then have "d (RecordCharge (generateId ''charge'') i (toNumber v) now) =
               d' (RecordCharge (generateId ''charge'') i (toNumber v) now)"
      using assms by simp
    then show ?thesis
      by (simp add: recordChargeRoute_accepts [where toNumber = toNumber and v = v, OF True Inr])
  next
    case False
    then show ?thesis
      using Inr assertPositiveNumber_Inl [OF False] by (simp add: recordChargeRoute_def)
  qed
qed

lemma recordPaymentRoute_decide_cong:
  assumes "\<forall>c. isPositive (payment_amount c) \<longrightarrow> d c = d' c"
  shows "recordPaymentRoute h d key toNumber generateId now db ps v =
         recordPaymentRoute h d' key toNumber generateId now db ps v"
proof (cases "parseGuestStayAccountId key ps")
  case (Inl e)
  then show ?thesis by (simp add: recordPaymentRoute_def)
next
  case (Inr i)
  show ?thesis
  proof (cases "isPositive (toNumber v)")
    case True
    then have "d (RecordPayment (generateId ''payment'') i (toNumber v) now) =
               d' (RecordPayment (generateId ''payment'') i (toNumber v) now)"
      using assms by simp
    then show ?thesis
      by (simp add: recordPaymentRoute_accepts [where toNumber = toNumber and v = v, OF True Inr])
  next
    case False
    then show ?thesis
      using Inr assertPositiveNumber_Inl [OF False] by (simp add: recordPaymentRoute_def)
  qed
qed

text \<open>
  C8, amended. In the record-charge and record-payment routes the amount of the body is
  converted to a number and asserted positive before the command is built. If it is not
  a number greater than 0 (it is not-a-number, zero or negative), the route fails with a
  validation error whatever the command handler and the decision are. If it is, the
  command handed to the handler carries exactly that number. The route's result does not
  depend on what the decision does with an amount that is not greater than 0: no such
  amount reaches it. An amount that reaches the decision is positive; it is finite or
  \<^verbatim>\<open>Infinity\<close>.
\<close>

theorem amount_validated_before_decide:
  fixes h :: "('n, 'w) handler"
  shows
    "(\<not> isPositive (toNumber v) \<longrightarrow>
        (\<exists>msg. \<forall>(handle :: ('n, 'w) handler) decide.
           (recordChargeRoute handle decide key toNumber generateId now db ps v
              :: error + (('b, 't) response \<times> 'n database)) = Inl (ValidationError msg)) \<and>
        (\<exists>msg. \<forall>(handle :: ('n, 'w) handler) decide.
           (recordPaymentRoute handle decide key toNumber generateId now db ps v
              :: error + (('b, 't) response \<times> 'n database)) = Inl (ValidationError msg))) \<and>
     (isPositive (toNumber v) \<and> parseGuestStayAccountId key ps = Inr i \<longrightarrow>
        (recordChargeRoute h d key toNumber generateId now db ps v
           :: error + (('b, 't) response \<times> 'n database)) =
          (case h db i (d (RecordCharge (generateId ''charge'') i (toNumber v) now)) of
             Inl e \<Rightarrow> Inl e
           | Inr (newEvents, db') \<Rightarrow> Inr (NoContent, db')) \<and>
        (recordPaymentRoute h p key toNumber generateId now db ps v
           :: error + (('b, 't) response \<times> 'n database)) =
          (case h db i (p (RecordPayment (generateId ''payment'') i (toNumber v) now)) of
             Inl e \<Rightarrow> Inl e
           | Inr (newEvents, db') \<Rightarrow> Inr (NoContent, db'))) \<and>
     ((\<forall>c. isPositive (charge_amount c) \<longrightarrow> d c = d' c) \<longrightarrow>
        (recordChargeRoute h d key toNumber generateId now db ps v
           :: error + (('b, 't) response \<times> 'n database)) =
        recordChargeRoute h d' key toNumber generateId now db ps v) \<and>
     ((\<forall>c. isPositive (payment_amount c) \<longrightarrow> p c = p' c) \<longrightarrow>
        (recordPaymentRoute h p key toNumber generateId now db ps v
           :: error + (('b, 't) response \<times> 'n database)) =
        recordPaymentRoute h p' key toNumber generateId now db ps v)"
proof (intro conjI impI)
  assume n: "\<not> isPositive (toNumber v)"
  show "\<exists>msg. \<forall>(handle :: ('n, 'w) handler) decide.
           (recordChargeRoute handle decide key toNumber generateId now db ps v
              :: error + (('b, 't) response \<times> 'n database)) = Inl (ValidationError msg)"
    using recordChargeRoute_rejects [where toNumber = toNumber and v = v, OF n] .
  show "\<exists>msg. \<forall>(handle :: ('n, 'w) handler) decide.
           (recordPaymentRoute handle decide key toNumber generateId now db ps v
              :: error + (('b, 't) response \<times> 'n database)) = Inl (ValidationError msg)"
    using recordPaymentRoute_rejects [where toNumber = toNumber and v = v, OF n] .
next
  assume a: "isPositive (toNumber v) \<and> parseGuestStayAccountId key ps = Inr i"
  show "(recordChargeRoute h d key toNumber generateId now db ps v
           :: error + (('b, 't) response \<times> 'n database)) =
          (case h db i (d (RecordCharge (generateId ''charge'') i (toNumber v) now)) of
             Inl e \<Rightarrow> Inl e
           | Inr (newEvents, db') \<Rightarrow> Inr (NoContent, db'))"
    using recordChargeRoute_accepts [where toNumber = toNumber and v = v] a by blast
  show "(recordPaymentRoute h p key toNumber generateId now db ps v
           :: error + (('b, 't) response \<times> 'n database)) =
          (case h db i (p (RecordPayment (generateId ''payment'') i (toNumber v) now)) of
             Inl e \<Rightarrow> Inl e
           | Inr (newEvents, db') \<Rightarrow> Inr (NoContent, db'))"
    using recordPaymentRoute_accepts [where toNumber = toNumber and v = v] a by blast
next
  assume "\<forall>c. isPositive (charge_amount c) \<longrightarrow> d c = d' c"
  then show "(recordChargeRoute h d key toNumber generateId now db ps v
           :: error + (('b, 't) response \<times> 'n database)) =
        recordChargeRoute h d' key toNumber generateId now db ps v"
    by (rule recordChargeRoute_decide_cong)
next
  assume "\<forall>c. isPositive (payment_amount c) \<longrightarrow> p c = p' c"
  then show "(recordPaymentRoute h p key toNumber generateId now db ps v
           :: error + (('b, 't) response \<times> 'n database)) =
        recordPaymentRoute h p' key toNumber generateId now db ps v"
    by (rule recordPaymentRoute_decide_cong)
qed

theorem amount_validated_before_decide_witness:
  "\<not> isPositive NaN \<and>
   (recordChargeRoute handle_single_writer
     (\<lambda>c state. Inr [])
     (\<lambda>g r d. g @ ''-'' @ r) (\<lambda>x. x) (\<lambda>prefix. prefix @ ''-1'') 1793700000001
     \<lparr> streams = (\<lambda>i. [] :: int GuestStayAccountEvent list), guestStayDetailsCollection = Map.empty \<rparr>
     \<lparr> param_guestId = Some ''g1'', param_roomId = Some ''r1'', param_checkInDate = Some ''2026-11-03'' \<rparr>
     NaN :: error + (('b, 't) response \<times> int database))
   = Inl (ValidationError ''NOT_A_POSITIVE_NUMBER'') \<and>
   (recordChargeRoute handle_single_writer
     (\<lambda>c state. Inr [])
     (\<lambda>g r d. g @ ''-'' @ r) (\<lambda>x. x) (\<lambda>prefix. prefix @ ''-1'') 1793700000001
     \<lparr> streams = (\<lambda>i. [] :: int GuestStayAccountEvent list), guestStayDetailsCollection = Map.empty \<rparr>
     \<lparr> param_guestId = Some ''g1'', param_roomId = Some ''r1'', param_checkInDate = Some ''2026-11-03'' \<rparr>
     NaN :: error + (('b, 't) response \<times> int database))
   = recordChargeRoute handle_single_writer
     (\<lambda>c state. if isPositive (charge_amount c) then Inr []
        else Inl (IllegalStateError ''not reached''))
     (\<lambda>g r d. g @ ''-'' @ r) (\<lambda>x. x) (\<lambda>prefix. prefix @ ''-1'') 1793700000001
     \<lparr> streams = (\<lambda>i. []), guestStayDetailsCollection = Map.empty \<rparr>
     \<lparr> param_guestId = Some ''g1'', param_roomId = Some ''r1'', param_checkInDate = Some ''2026-11-03'' \<rparr>
     NaN \<and>
   isPositive (Finite 50) \<and>
   (recordPaymentRoute handle_single_writer
     (\<lambda>c state. Inr [])
     (\<lambda>g r d. g @ ''-'' @ r) (\<lambda>x. x) (\<lambda>prefix. prefix @ ''-1'') 1793700000001
     \<lparr> streams = (\<lambda>i. [] :: int GuestStayAccountEvent list), guestStayDetailsCollection = Map.empty \<rparr>
     \<lparr> param_guestId = Some ''g1'', param_roomId = Some ''r1'', param_checkInDate = Some ''2026-11-03'' \<rparr>
     (Finite 50) :: error + (('b, 't) response \<times> int database))
   = Inr (NoContent,
       \<lparr> streams = (\<lambda>i. [])(''g1-r1'' := []), guestStayDetailsCollection = Map.empty \<rparr>)"
proof -
  let ?key = "\<lambda>g r (d :: int). g @ ''-'' @ r"
  let ?ps = "\<lparr> param_guestId = Some ''g1'', param_roomId = Some ''r1'',
               param_checkInDate = Some ''2026-11-03'' \<rparr>"
  let ?db = "\<lparr> streams = (\<lambda>i. [] :: int GuestStayAccountEvent list),
               guestStayDetailsCollection = Map.empty \<rparr>"
  let ?d = "\<lambda>(c :: RecordCharge) (state :: int GuestStayAccount).
              (Inr [] :: error + int GuestStayAccountEvent list)"
  let ?d' = "\<lambda>(c :: RecordCharge) (state :: int GuestStayAccount).
              if isPositive (charge_amount c) then (Inr [] :: error + int GuestStayAccountEvent list)
              else Inl (IllegalStateError ''not reached'')"
  let ?p = "\<lambda>(c :: RecordPayment) (state :: int GuestStayAccount).
              (Inr [] :: error + int GuestStayAccountEvent list)"
  have p: "parseGuestStayAccountId ?key ?ps = Inr ''g1-r1''"
    by (simp add: parse_example)
  have n: "\<not> isPositive NaN" and f: "isPositive (Finite 50)"
    by simp_all
  have c: "\<forall>c. isPositive (charge_amount c) \<longrightarrow> ?d c = ?d' c"
    by simp
  note w = amount_validated_before_decide [where h = handle_single_writer and key = ?key
      and ps = ?ps and toNumber = "\<lambda>x. x" and generateId = "\<lambda>prefix. prefix @ ''-1''"
      and now = 1793700000001 and i = "''g1-r1''" and db = ?db
      and d = ?d and d' = ?d' and p = ?p and p' = ?p]
  have 1: "(recordChargeRoute handle_single_writer ?d ?key (\<lambda>x. x) (\<lambda>prefix. prefix @ ''-1'')
              1793700000001 ?db ?ps NaN :: error + (('b, 't) response \<times> int database))
           = recordChargeRoute handle_single_writer ?d' ?key (\<lambda>x. x) (\<lambda>prefix. prefix @ ''-1'')
              1793700000001 ?db ?ps NaN"
    using w [where v = NaN, THEN conjunct2, THEN conjunct2, THEN conjunct1, THEN mp, OF c] .
  have "(recordPaymentRoute handle_single_writer ?p ?key (\<lambda>x. x) (\<lambda>prefix. prefix @ ''-1'')
              1793700000001 ?db ?ps (Finite 50) :: error + (('b, 't) response \<times> int database))
        = (case handle_single_writer ?db ''g1-r1''
                 (?p (RecordPayment ((\<lambda>prefix. prefix @ ''-1'') ''payment'') ''g1-r1''
                        ((\<lambda>x. x) (Finite 50)) 1793700000001)) of
             Inl e \<Rightarrow> Inl e
           | Inr (newEvents, db') \<Rightarrow> Inr (NoContent, db'))"
    using w [where v = "Finite 50", THEN conjunct2, THEN conjunct1, THEN mp, THEN conjunct2] f p
    by simp
  then have 2: "(recordPaymentRoute handle_single_writer ?p ?key (\<lambda>x. x) (\<lambda>prefix. prefix @ ''-1'')
              1793700000001 ?db ?ps (Finite 50) :: error + (('b, 't) response \<times> int database))
        = Inr (NoContent,
            \<lparr> streams = (\<lambda>i. [])(''g1-r1'' := []), guestStayDetailsCollection = Map.empty \<rparr>)"
    by (simp add: handle_single_writer_def)
  obtain msg where "\<forall>(handle :: (int, int GuestStayAccount) handler) decide.
      (recordChargeRoute handle decide ?key (\<lambda>x. x) (\<lambda>prefix. prefix @ ''-1'')
         1793700000001 ?db ?ps NaN :: error + (('b, 't) response \<times> int database))
      = Inl (ValidationError msg)"
    using w [where v = NaN, THEN conjunct1, THEN mp, OF n, THEN conjunct1] by (elim exE)
  then have "(recordChargeRoute handle_single_writer ?d ?key (\<lambda>x. x) (\<lambda>prefix. prefix @ ''-1'')
         1793700000001 ?db ?ps NaN :: error + (('b, 't) response \<times> int database))
      = Inl (ValidationError msg)"
    by (elim allE)
  moreover have "(recordChargeRoute handle_single_writer ?d ?key (\<lambda>x. x) (\<lambda>prefix. prefix @ ''-1'')
         1793700000001 ?db ?ps NaN :: error + (('b, 't) response \<times> int database))
      = Inl (ValidationError ''NOT_A_POSITIVE_NUMBER'')"
    using p by (simp add: recordChargeRoute_def assertPositiveNumber_def isNumber_def)
  ultimately have 0: "(recordChargeRoute handle_single_writer ?d ?key (\<lambda>x. x) (\<lambda>prefix. prefix @ ''-1'')
         1793700000001 ?db ?ps NaN :: error + (('b, 't) response \<times> int database))
      = Inl (ValidationError ''NOT_A_POSITIVE_NUMBER'')"
    by simp
  show ?thesis using n f 0 1 2 by simp
qed

text \<open>
  The claim as stated fails: an amount that reaches the decision need not be finite. A
  body amount that converts to \<^verbatim>\<open>Infinity\<close> (the JSON number \<^verbatim>\<open>1e999\<close> does) passes the
  assertion; the decision is called with it and the charge is recorded.
\<close>

theorem amount_validated_before_decide_counterexample:
  "\<not> isFinite Infinity \<and>
   assertPositiveNumber Infinity = Inr Infinity \<and>
   (recordChargeRoute handle_single_writer recordCharge dayKey id id 1793700000001
      checked_in_store
      \<lparr> param_guestId = Some ''g1'', param_roomId = Some ''r1'', param_checkInDate = Some ''2026-11-03'' \<rparr>
      Infinity :: error + (('b, 't) response \<times> number database))
   = Inr (NoContent,
       checked_in_store \<lparr> streams := (streams checked_in_store)
         (''g1-r1-2026-11-03'' :=
            [GuestCheckedIn ''g1-r1-2026-11-03'' ''g1'' ''r1'' 1793700000000,
             ChargeRecorded ''charge'' Infinity]) \<rparr>)"
proof -
  have p: "parseGuestStayAccountId dayKey
     \<lparr> param_guestId = Some ''g1'', param_roomId = Some ''r1'', param_checkInDate = Some ''2026-11-03'' \<rparr>
     = Inr ''g1-r1-2026-11-03''"
    by (simp add: parse_example dayKey_example)
  have a: "assertPositiveNumber Infinity = Inr Infinity"
    by (simp add: assertPositiveNumber_def isNumber_def zero_number_def)
  show ?thesis
    by (simp add: recordChargeRoute_def p a handle_single_writer_def checked_in_store_def)
qed


section \<open>Properties of the account identifier\<close>

subsection \<open>Days and civil dates\<close>

lemma div_bounds:
  fixes a k :: int
  assumes "0 < k"
  shows "k * (a div k) \<le> a" and "a < k * (a div k) + k"
proof -
  have "a = k * (a div k) + a mod k" by simp
  moreover have "0 \<le> a mod k" "a mod k < k"
    using assms by simp_all
  ultimately show "k * (a div k) \<le> a" and "a < k * (a div k) + k"
    by linarith+
qed

lemma div_eqI:
  fixes a k q :: int
  assumes "k * q \<le> a" and "a < k * q + k"
  shows "a div k = q"
proof -
  have "a = k * q + (a - k * q)" by simp
  moreover have "0 \<le> a - k * q" "a - k * q < k" using assms by simp_all
  ultimately show ?thesis by (rule int_div_pos_eq)
qed

text \<open>
  A day of the era, from 0 to 146096, is day \<open>r\<close> of year \<open>100 F + 4 E + p\<close> of the
  era: century \<open>F\<close>, four-year group \<open>E\<close> of the century, year \<open>p\<close> of the group.
\<close>

lemma era_decompose:
  fixes doe :: int
  assumes "0 \<le> doe" and "doe \<le> 146096"
  obtains F E p r where
    "0 \<le> F" "F \<le> 3" "0 \<le> E" "E \<le> 24" "0 \<le> p" "p \<le> 3" "0 \<le> r" "r \<le> 365"
    "r = 365 \<longrightarrow> p = 3"
    "doe = 36524 * F + 1461 * E + 365 * p + r"
    "doe = 146096 \<longrightarrow> F = 3"
    "doe < 146096 \<longrightarrow> doe < 36524 * F + 36524"
proof -
  define B where "B = doe div 36524"
  have B: "36524 * B \<le> doe" "doe < 36524 * B + 36524"
    unfolding B_def by (rule div_bounds, simp)+
  define F where "F = (if doe = 146096 then 3 else B)"
  have F: "0 \<le> F \<and> F \<le> 3 \<and> 36524 * F \<le> doe \<and> doe \<le> 36524 * F + 36524 \<and>
    (doe = 146096 \<longrightarrow> F = 3) \<and> (doe < 146096 \<longrightarrow> doe < 36524 * F + 36524)"
  proof (cases "doe = 146096")
    case True
    then show ?thesis by (simp add: F_def)
  next
    case False
    then have "F = B" by (simp add: F_def)
    with False assms B show ?thesis by linarith
  qed
  define r1 where "r1 = doe - 36524 * F"
  have r1: "0 \<le> r1" "r1 \<le> 36524"
    using F unfolding r1_def by linarith+
  define E where "E = r1 div 1461"
  have E': "1461 * E \<le> r1" "r1 < 1461 * E + 1461"
    unfolding E_def by (rule div_bounds, simp)+
  have E: "0 \<le> E" "E \<le> 24"
    using E' r1 by linarith+
  define r2 where "r2 = r1 - 1461 * E"
  have r2: "0 \<le> r2" "r2 \<le> 1460"
    using E' unfolding r2_def by linarith+
  define P where "P = r2 div 365"
  have P: "365 * P \<le> r2" "r2 < 365 * P + 365"
    unfolding P_def by (rule div_bounds, simp)+
  define p where "p = (if r2 = 1460 then 3 else P)"
  define r where "r = r2 - 365 * p"
  have p: "0 \<le> p \<and> p \<le> 3 \<and> 0 \<le> r \<and> r \<le> 365 \<and> (r = 365 \<longrightarrow> p = 3)"
  proof (cases "r2 = 1460")
    case True
    then show ?thesis by (simp add: p_def r_def)
  next
    case False
    then have "p = P" by (simp add: p_def)
    with False r2 P show ?thesis unfolding r_def by linarith
  qed
  have "doe = 36524 * F + 1461 * E + 365 * p + r"
    unfolding r_def r2_def r1_def by simp
  with F E p show thesis
    by (intro that [of F E p r]) simp_all
qed

lemma era_year_day:
  fixes doe :: int
  assumes "0 \<le> doe" and "doe \<le> 146096"
  defines "yoe \<equiv> (doe - doe div 1460 + doe div 36524 - doe div 146096) div 365"
  shows "0 \<le> yoe \<and> yoe \<le> 399 \<and>
         0 \<le> doe - (365 * yoe + yoe div 4 - yoe div 100) \<and>
         doe - (365 * yoe + yoe div 4 - yoe div 100) \<le> 365"
proof -
  from era_decompose [OF assms(1,2)] obtain F E p r where
    F: "0 \<le> F" "F \<le> 3" and E: "0 \<le> E" "E \<le> 24" and p: "0 \<le> p" "p \<le> 3"
    and r: "0 \<le> r" "r \<le> 365" "r = 365 \<longrightarrow> p = 3"
    and doe: "doe = 36524 * F + 1461 * E + 365 * p + r"
    and last: "doe = 146096 \<longrightarrow> F = 3" "doe < 146096 \<longrightarrow> doe < 36524 * F + 36524"
    by blast
  define x where "x = 24 * F + E + 365 * p + r"
  define D where "D = x div 1460"
  have D': "1460 * D \<le> x" "x < 1460 * D + 1460"
    unfolding D_def by (rule div_bounds, simp)+
  have D: "0 \<le> D" "D \<le> 1"
    using D' F E p r unfolding x_def by linarith+
  have rD: "0 \<le> r - D" "r - D \<le> 364"
    using D' D F E p r unfolding x_def by linarith+
  have A: "doe div 1460 = 25 * F + E + D"
  proof (rule div_eqI)
    show "1460 * (25 * F + E + D) \<le> doe"
      using D' unfolding doe x_def by (simp add: algebra_simps)
    show "doe < 1460 * (25 * F + E + D) + 1460"
      using D' unfolding doe x_def by (simp add: algebra_simps)
  qed
  have BC: "doe div 36524 - doe div 146096 = F"
  proof (cases "doe = 146096")
    case True
    with last show ?thesis by simp
  next
    case False
    with assms have lt: "doe < 146096" by simp
    have "doe div 146096 = 0"
      using assms(1) lt by simp
    moreover have "doe div 36524 = F"
      by (rule div_eqI) (use last lt F E p r doe in linarith)+
    ultimately show ?thesis by simp
  qed
  define Y where "Y = 100 * F + 4 * E + p"
  have "doe - doe div 1460 + doe div 36524 - doe div 146096 = doe - (25 * F + E + D) + F"
    using A BC by simp
  also have "\<dots> = 365 * Y + (r - D)"
    unfolding Y_def doe by simp
  finally have N: "doe - doe div 1460 + doe div 36524 - doe div 146096 = 365 * Y + (r - D)" .
  have yoe: "yoe = Y"
    unfolding yoe_def N by (rule div_eqI) (use rD in linarith)+
  have Y4: "Y div 4 = 25 * F + E"
    by (rule div_eqI) (use p in \<open>simp_all add: Y_def\<close>)
  have Y100: "Y div 100 = F"
    by (rule div_eqI) (use p E in \<open>simp_all add: Y_def\<close>)
  have doy: "doe - (365 * yoe + yoe div 4 - yoe div 100) = r"
    unfolding yoe Y4 Y100 unfolding Y_def doe by simp
  have "0 \<le> Y" "Y \<le> 399"
    using F E p unfolding Y_def by linarith+
  then show ?thesis
    unfolding doy using r yoe by simp
qed


text \<open>The parts of a civil date, with the bounds of month and day.\<close>

lemma civil_from_days_parts:
  obtains era yoe doy mp y m d where
    "civil_from_days z = (y, m, d)"
    "y = (if m \<le> 2 then yoe + era * 400 + 1 else yoe + era * 400)"
    "m = (if mp < 10 then mp + 3 else mp - 9)"
    "d = doy - (153 * mp + 2) div 5 + 1"
    "z + 719468 = era * 146097 + (365 * yoe + yoe div 4 - yoe div 100) + doy"
    "0 \<le> yoe" "yoe \<le> 399" "0 \<le> mp" "mp \<le> 11"
    "1 \<le> m" "m \<le> 12" "1 \<le> d" "d \<le> 31"
proof -
  define era where "era = (z + 719468) div 146097"
  define doe where "doe = z + 719468 - era * 146097"
  define yoe where "yoe = (doe - doe div 1460 + doe div 36524 - doe div 146096) div 365"
  define doy where "doy = doe - (365 * yoe + yoe div 4 - yoe div 100)"
  define mp where "mp = (5 * doy + 2) div 153"
  define q where "q = (153 * mp + 2) div 5"
  define d where "d = doy - q + 1"
  define m where "m = (if mp < 10 then mp + 3 else mp - 9)"
  define y where "y = (if m \<le> 2 then yoe + era * 400 + 1 else yoe + era * 400)"
  have c: "civil_from_days z = (y, m, d)"
    unfolding civil_from_days_def Let_def y_def m_def d_def q_def mp_def doy_def yoe_def doe_def era_def
    by (rule refl)
  have era: "146097 * era \<le> z + 719468" "z + 719468 < 146097 * era + 146097"
    unfolding era_def by (rule div_bounds, simp)+
  have doe: "0 \<le> doe" "doe \<le> 146096"
    using era unfolding doe_def by linarith+
  from era_year_day [OF doe]
  have yoe: "0 \<le> yoe" "yoe \<le> 399" and doy: "0 \<le> doy" "doy \<le> 365"
    unfolding yoe_def doy_def by simp_all
  have mp': "153 * mp \<le> 5 * doy + 2" "5 * doy + 2 < 153 * mp + 153"
    unfolding mp_def by (rule div_bounds, simp)+
  have mp: "0 \<le> mp" "mp \<le> 11"
    using mp' doy by linarith+
  have q: "5 * q \<le> 153 * mp + 2" "153 * mp + 2 < 5 * q + 5"
    unfolding q_def by (rule div_bounds, simp)+
  have d: "1 \<le> d" "d \<le> 31"
    using q mp' unfolding d_def by linarith+
  have m: "1 \<le> m" "m \<le> 12"
    using mp unfolding m_def by auto
  have z: "z + 719468 = era * 146097 + (365 * yoe + yoe div 4 - yoe div 100) + doy"
    unfolding doy_def doe_def by simp
  show thesis
    by (rule that [of y m d yoe era mp doy])
       (use c yoe mp m d z in \<open>simp_all add: y_def m_def d_def q_def\<close>)
qed

lemma days_from_civil_civil_from_days: "days_from_civil (civil_from_days z) = z"
proof -
  obtain era yoe doy mp y m d where
    c: "civil_from_days z = (y, m, d)"
    and y: "y = (if m \<le> 2 then yoe + era * 400 + 1 else yoe + era * 400)"
    and m: "m = (if mp < 10 then mp + 3 else mp - 9)"
    and d: "d = doy - (153 * mp + 2) div 5 + 1"
    and z: "z + 719468 = era * 146097 + (365 * yoe + yoe div 4 - yoe div 100) + doy"
    and yoe: "0 \<le> yoe" "yoe \<le> 399" and mp: "0 \<le> mp" "mp \<le> 11"
    by (rule civil_from_days_parts)
  have mp': "(if 2 < m then m - 3 else m + 9) = mp"
    using mp unfolding m by auto
  have y': "(if m \<le> 2 then y - 1 else y) = yoe + era * 400"
    unfolding y by simp
  have era': "(yoe + era * 400) div 400 = era"
    by (rule div_eqI) (use yoe in linarith)+
  have "days_from_civil (y, m, d) =
        era * 146097 + ((yoe + era * 400 - era * 400) * 365 + (yoe + era * 400 - era * 400) div 4
          - (yoe + era * 400 - era * 400) div 100 + ((153 * mp + 2) div 5 + d - 1)) - 719468"
    unfolding days_from_civil_def by (simp only: prod.case Let_def y' mp' era')
  also have "\<dots> = era * 146097 + (365 * yoe + yoe div 4 - yoe div 100) + doy - 719468"
    unfolding d by simp
  also have "\<dots> = z"
    using z by simp
  finally show ?thesis
    unfolding c .
qed

lemma digit_char_digit:
  assumes "0 \<le> k" and "k \<le> 9"
  shows "is_digit (digit_char k)" and "digit_value (digit_char k) = k"
proof -
  have "(48 + k) mod 256 = 48 + k"
    using assms by simp
  then have "(of_char (digit_char k) :: int) = 48 + k"
    by (simp add: digit_char_def)
  then show "is_digit (digit_char k)" and "digit_value (digit_char k) = k"
    using assms by (simp_all add: is_digit_def digit_value_def)
qed

lemma two_digits_read:
  assumes "0 \<le> n" and "n \<le> 99"
  obtains c1 c2 where "two_digits n = [c1, c2]" "is_digit c1" "is_digit c2"
    "10 * digit_value c1 + digit_value c2 = n"
proof -
  define q where "q = n div 10"
  define e where "e = n mod 10"
  have f: "two_digits n = [digit_char q, digit_char e]"
    unfolding two_digits_def q_def e_def by (rule refl)
  have "10 * q \<le> n" "n < 10 * q + 10"
    unfolding q_def by (rule div_bounds, simp)+
  with assms have q: "0 \<le> q" "q \<le> 9"
    by linarith+
  have e: "0 \<le> e" "e \<le> 9"
    unfolding e_def by simp_all
  have sum: "10 * q + e = n"
    unfolding q_def e_def by (rule mult_div_mod_eq)
  have v: "digit_value (digit_char q) = q" "digit_value (digit_char e) = e"
    by (rule digit_char_digit(2) [OF q] digit_char_digit(2) [OF e])+
  show thesis
  proof (rule that [OF f])
    show "is_digit (digit_char q)" by (rule digit_char_digit(1) [OF q])
    show "is_digit (digit_char e)" by (rule digit_char_digit(1) [OF e])
    show "10 * digit_value (digit_char q) + digit_value (digit_char e) = n"
      unfolding v by (rule sum)
  qed
qed

lemma four_digits_read:
  assumes "0 \<le> n" and "n \<le> 9999"
  obtains c1 c2 c3 c4 where "four_digits n = [c1, c2, c3, c4]"
    "is_digit c1" "is_digit c2" "is_digit c3" "is_digit c4"
    "1000 * digit_value c1 + 100 * digit_value c2 + 10 * digit_value c3 + digit_value c4 = n"
proof -
  define a where "a = n div 1000"
  define b where "b = n div 100 mod 10"
  define c where "c = n div 10 mod 10"
  define e where "e = n mod 10"
  have f: "four_digits n = [digit_char a, digit_char b, digit_char c, digit_char e]"
    unfolding four_digits_def a_def b_def c_def e_def by (rule refl)
  have "1000 * a \<le> n" "n < 1000 * a + 1000"
    unfolding a_def by (rule div_bounds, simp)+
  with assms have a: "0 \<le> a" "a \<le> 9"
    by linarith+
  have b: "0 \<le> b" "b \<le> 9"
    unfolding b_def by simp_all
  have c: "0 \<le> c" "c \<le> 9"
    unfolding c_def by simp_all
  have e: "0 \<le> e" "e \<le> 9"
    unfolding e_def by simp_all
  define q1 where "q1 = n div 10"
  define q2 where "q2 = q1 div 10"
  have h: "n div 100 = q2"
    using zdiv_zmult2_eq [of 10 n 10] unfolding q1_def q2_def by simp
  have t: "n div 1000 = q2 div 10"
    using zdiv_zmult2_eq [of 10 n 100] unfolding h by simp
  have 1: "n = 10 * q1 + e"
    unfolding e_def q1_def by (rule mult_div_mod_eq [symmetric])
  have 2: "q1 = 10 * q2 + c"
    unfolding c_def q1_def [symmetric] q2_def by (rule mult_div_mod_eq [symmetric])
  have 3: "q2 = 10 * a + b"
    unfolding a_def b_def h t by (rule mult_div_mod_eq [symmetric])
  from 1 2 3 have sum: "1000 * a + 100 * b + 10 * c + e = n"
    by linarith
  have v: "digit_value (digit_char a) = a" "digit_value (digit_char b) = b"
    "digit_value (digit_char c) = c" "digit_value (digit_char e) = e"
    by (rule digit_char_digit(2) [OF a] digit_char_digit(2) [OF b] digit_char_digit(2) [OF c]
        digit_char_digit(2) [OF e])+
  show thesis
  proof (rule that [OF f])
    show "is_digit (digit_char a)" by (rule digit_char_digit(1) [OF a])
    show "is_digit (digit_char b)" by (rule digit_char_digit(1) [OF b])
    show "is_digit (digit_char c)" by (rule digit_char_digit(1) [OF c])
    show "is_digit (digit_char e)" by (rule digit_char_digit(1) [OF e])
    show "1000 * digit_value (digit_char a) + 100 * digit_value (digit_char b)
        + 10 * digit_value (digit_char c) + digit_value (digit_char e) = n"
      unfolding v by (rule sum)
  qed
qed


lemma civil_from_days_range:
  obtains y m d where "civil_from_days z = (y, m, d)" "1 \<le> m" "m \<le> 12" "1 \<le> d" "d \<le> 31"
proof -
  obtain era yoe doy mp :: int and y m d where
    "civil_from_days z = (y, m, d)"
    "z + 719468 = era * 146097 + (365 * yoe + yoe div 4 - yoe div 100) + doy"
    "0 \<le> mp" "1 \<le> m" "m \<le> 12" "1 \<le> d" "d \<le> 31"
    by (rule civil_from_days_parts)
  then show thesis
    by (intro that [of y m d])
qed

lemma utcDay_start_of_day: "utcDay (z * 86400000) = z"
  by (simp add: utcDay_def)

lemma decimal_four_digits:
  assumes "1000 \<le> y" and "y \<le> 9999"
  shows "decimal y = four_digits y"
proof -
  define q1 where "q1 = y div 10"
  define q2 where "q2 = q1 div 10"
  define q3 where "q3 = q2 div 10"
  have b1: "10 * q1 \<le> y" "y < 10 * q1 + 10"
    unfolding q1_def by (rule div_bounds, simp)+
  have b2: "10 * q2 \<le> q1" "q1 < 10 * q2 + 10"
    unfolding q2_def by (rule div_bounds, simp)+
  have b3: "10 * q3 \<le> q2" "q2 < 10 * q3 + 10"
    unfolding q3_def by (rule div_bounds, simp)+
  have r: "\<not> y < 10" "\<not> q1 < 10" "\<not> q2 < 10" "q3 < 10"
    using assms b1 b2 b3 by linarith+
  have h: "y div 100 = q2"
    using zdiv_zmult2_eq [of 10 y 10] unfolding q1_def q2_def by simp
  have t: "y div 1000 = q3"
    using zdiv_zmult2_eq [of 10 y 100] unfolding h q3_def by simp
  have 1: "decimal y = decimal q1 @ [digit_char (y mod 10)]"
    using r(1) by (subst decimal.simps) (simp add: q1_def)
  have 2: "decimal q1 = decimal q2 @ [digit_char (q1 mod 10)]"
    using r(2) by (subst decimal.simps) (simp add: q2_def)
  have 3: "decimal q2 = decimal q3 @ [digit_char (q2 mod 10)]"
    using r(3) by (subst decimal.simps) (simp add: q3_def)
  have 4: "decimal q3 = [digit_char q3]"
    using r(4) by (subst decimal.simps) simp
  have "four_digits y = [digit_char q3, digit_char (q2 mod 10), digit_char (q1 mod 10),
                         digit_char (y mod 10)]"
    unfolding four_digits_def h t q1_def [symmetric] by (rule refl)
  then show ?thesis
    unfolding 1 2 3 4 by simp
qed

lemma parse_format_date:
  assumes "1000 \<le> utcYear now" and "utcYear now \<le> 9999"
  shows "parseDateFromUtcYYYYMMDD (formatDateToUtcYYYYMMDD now) = Inr (utcDay now * 86400000)"
proof -
  obtain y m d where
    c: "civil_from_days (utcDay now) = (y, m, d)"
    and m: "1 \<le> m" "m \<le> 12" and d: "1 \<le> d" "d \<le> 31"
    by (rule civil_from_days_range)
  have y: "1000 \<le> y" "y \<le> 9999"
    using assms by (simp_all add: utcYear_def c)
  have y': "0 \<le> y"
    using y(1) by simp
  have day: "days_from_civil (y, m, d) = utcDay now"
    using days_from_civil_civil_from_days [of "utcDay now"] by (simp add: c)
  have yt: "year_text y = four_digits y"
    using y(1) decimal_four_digits [OF y] by (simp add: year_text_def)
  obtain y1 y2 y3 y4 where ys: "four_digits y = [y1, y2, y3, y4]"
    "is_digit y1" "is_digit y2" "is_digit y3" "is_digit y4"
    "1000 * digit_value y1 + 100 * digit_value y2 + 10 * digit_value y3 + digit_value y4 = y"
    by (rule four_digits_read [OF y' y(2)])
  have m': "0 \<le> m" "m \<le> 99" and d': "0 \<le> d" "d \<le> 99"
    using m d by simp_all
  obtain m1 m2 where ms: "two_digits m = [m1, m2]" "is_digit m1" "is_digit m2"
    "10 * digit_value m1 + digit_value m2 = m"
    by (rule two_digits_read [OF m'])
  obtain d1 d2 where ds: "two_digits d = [d1, d2]" "is_digit d1" "is_digit d2"
    "10 * digit_value d1 + digit_value d2 = d"
    by (rule two_digits_read [OF d'])
  have f: "formatDateToUtcYYYYMMDD now = [y1, y2, y3, y4, CHR ''-'', m1, m2, CHR ''-'', d1, d2]"
    by (simp add: formatDateToUtcYYYYMMDD_def c yt ys(1) ms(1) ds(1))
  show ?thesis
    unfolding f parseDateFromUtcYYYYMMDD_def
    by (simp add: Let_def ys ms ds day m d)
qed


subsection \<open>The identifier of the check-in and of the later requests\<close>

lemma checkInRoute_stream_id:
  assumes "g \<noteq> []" and "r \<noteq> []" and "doesGuestStayExist g r now"
  shows "checkInRoute handle decide key doesGuestStayExist now db
           \<lparr> param_guestId = Some g, param_roomId = Some r, param_checkInDate = None \<rparr>
         = (case handle db (toGuestStayAccountId key g r now) (decide (CheckIn g r now)) of
              Inl e \<Rightarrow> Inl e
            | Inr (newEvents, db') \<Rightarrow>
                Inr (Created (''/guests/'' @ g @ ''/stays/'' @ r @ ''/periods/'' @
                              formatDateToUtcYYYYMMDD now), db'))"
  using assms by (simp add: checkInRoute_def assertNotEmptyString_def)

text \<open>
  C7, amended. For a non-empty guestId and roomId and a timestamp \<open>now\<close> whose UTC year
  is from 1000 to 9999, the identifier that \<^verbatim>\<open>parseGuestStayAccountId\<close> computes from
  the route parameters guestId, roomId and \<^verbatim>\<open>formatDateToUtcYYYYMMDD(now)\<close> is
  \<^verbatim>\<open>toGuestStayAccountId(guestId, roomId, now)\<close>, the identifier of the check-in: the
  text of the day reads back to the same day. Two timestamps of the same UTC day give
  the same identifier. This holds for every derivation \<open>key\<close> of the identifier from
  guest, room and day.
\<close>

theorem account_id_round_trip:
  assumes "g \<noteq> []" and "r \<noteq> []"
    and "1000 \<le> utcYear now" and "utcYear now \<le> 9999"
  shows "parseGuestStayAccountId key
           \<lparr> param_guestId = Some g, param_roomId = Some r,
             param_checkInDate = Some (formatDateToUtcYYYYMMDD now) \<rparr>
         = Inr (toGuestStayAccountId key g r now) \<and>
         (\<forall>now'. utcDay now' = utcDay now \<longrightarrow>
            toGuestStayAccountId key g r now' = toGuestStayAccountId key g r now)"
proof -
  have p: "parseDateFromUtcYYYYMMDD (formatDateToUtcYYYYMMDD now) = Inr (utcDay now * 86400000)"
    using assms(3,4) by (rule parse_format_date)
  have n: "formatDateToUtcYYYYMMDD now \<noteq> []"
    by (cases "civil_from_days (utcDay now)") (simp add: formatDateToUtcYYYYMMDD_def)
  show ?thesis
    using assms(1,2) n
    by (simp add: parseGuestStayAccountId_def assertNotEmptyString_def p
        toGuestStayAccountId_def utcDay_start_of_day)
qed

lemma utcYear_example: "utcYear 1793700000000 = 2026"
  by code_simp

lemma utcDay_example: "utcDay 1793664000000 = utcDay 1793700000000"
  by code_simp

theorem account_id_round_trip_witness:
  "''g1'' \<noteq> [] \<and> ''r1'' \<noteq> [] \<and> 1000 \<le> utcYear 1793700000000 \<and> utcYear 1793700000000 \<le> 9999 \<and>
   formatDateToUtcYYYYMMDD 1793700000000 = ''2026-11-03'' \<and>
   parseGuestStayAccountId dayKey
     \<lparr> param_guestId = Some ''g1'', param_roomId = Some ''r1'',
       param_checkInDate = Some ''2026-11-03'' \<rparr>
   = Inr (toGuestStayAccountId dayKey ''g1'' ''r1'' 1793700000000) \<and>
   utcDay 1793664000000 = utcDay 1793700000000 \<and>
   toGuestStayAccountId dayKey ''g1'' ''r1'' 1793664000000
   = toGuestStayAccountId dayKey ''g1'' ''r1'' 1793700000000"
proof -
  have g: "''g1'' \<noteq> []" and r: "''r1'' \<noteq> []"
    by simp_all
  have y: "1000 \<le> utcYear 1793700000000" "utcYear 1793700000000 \<le> 9999"
    unfolding utcYear_example by simp_all
  note t = account_id_round_trip [OF g r y, of dayKey]
  have "parseGuestStayAccountId dayKey
     \<lparr> param_guestId = Some ''g1'', param_roomId = Some ''r1'',
       param_checkInDate = Some (formatDateToUtcYYYYMMDD 1793700000000) \<rparr>
   = Inr (toGuestStayAccountId dayKey ''g1'' ''r1'' 1793700000000)"
    using t [THEN conjunct1] .
  then have 1: "parseGuestStayAccountId dayKey
     \<lparr> param_guestId = Some ''g1'', param_roomId = Some ''r1'',
       param_checkInDate = Some ''2026-11-03'' \<rparr>
   = Inr (toGuestStayAccountId dayKey ''g1'' ''r1'' 1793700000000)"
    unfolding format_example .
  have 2: "toGuestStayAccountId dayKey ''g1'' ''r1'' 1793664000000
   = toGuestStayAccountId dayKey ''g1'' ''r1'' 1793700000000"
    using t [THEN conjunct2, THEN spec, THEN mp, OF utcDay_example] .
  from g r y format_example 1 utcDay_example 2 show ?thesis
    by (intro conjI)
qed

text \<open>
  The claim as stated fails outside these years. The timestamp -30610310400000 is the
  first millisecond of 31 December 999: the formatter writes \<^verbatim>\<open>999-12-31\<close>, with a
  three-digit year. The timestamp 253402300800000 is the first millisecond of the year
  10000: the formatter writes \<^verbatim>\<open>10000-01-01\<close>. Neither text is read back: the later
  requests fail with a validation error and do not reach the account of the check-in.
\<close>

lemma utcYear_999: "utcYear (- 30610310400000) = 999"
  by code_simp

lemma format_999: "formatDateToUtcYYYYMMDD (- 30610310400000) = ''999-12-31''"
  by code_simp

lemma parseDate_999:
  "parseDateFromUtcYYYYMMDD ''999-12-31'' = Inl (ValidationError ''Invalid date format, must be yyyy-mm-dd'')"
  by code_simp

lemma utcYear_10000: "utcYear 253402300800000 = 10000"
  by code_simp

lemma format_10000: "formatDateToUtcYYYYMMDD 253402300800000 = ''10000-01-01''"
  by code_simp

lemma parseDate_10000:
  "parseDateFromUtcYYYYMMDD ''10000-01-01'' = Inl (ValidationError ''Invalid date format, must be yyyy-mm-dd'')"
  by code_simp

theorem account_id_round_trip_counterexample:
  "utcYear (- 30610310400000) = 999 \<and>
   formatDateToUtcYYYYMMDD (- 30610310400000) = ''999-12-31'' \<and>
   parseGuestStayAccountId dayKey
     \<lparr> param_guestId = Some ''g1'', param_roomId = Some ''r1'',
       param_checkInDate = Some (formatDateToUtcYYYYMMDD (- 30610310400000)) \<rparr>
   \<noteq> Inr (toGuestStayAccountId dayKey ''g1'' ''r1'' (- 30610310400000)) \<and>
   utcYear 253402300800000 = 10000 \<and>
   formatDateToUtcYYYYMMDD 253402300800000 = ''10000-01-01'' \<and>
   parseGuestStayAccountId dayKey
     \<lparr> param_guestId = Some ''g1'', param_roomId = Some ''r1'',
       param_checkInDate = Some (formatDateToUtcYYYYMMDD 253402300800000) \<rparr>
   \<noteq> Inr (toGuestStayAccountId dayKey ''g1'' ''r1'' 253402300800000)"
  by (simp add: parseGuestStayAccountId_def assertNotEmptyString_def format_999 parseDate_999
      utcYear_999 format_10000 parseDate_10000 utcYear_10000)


section \<open>Properties of the command handler\<close>

lemma CommandHandler_cycles:
  "snd (CommandHandler evolveFn initial retries others eventStore streamId commandFn) \<le> retries + 1"
proof (induction retries arbitrary: others eventStore)
  case 0
  show ?case by (simp split: sum.splits prod.splits)
next
  case (Suc retries)
  show ?case
  proof (cases "load_decide_append evolveFn initial others eventStore streamId commandFn")
    case (Inl result)
    then show ?thesis by simp
  next
    case (Inr c)
    obtain conflict eventStore' where c: "c = (conflict, eventStore')"
      by (cases c)
    show ?thesis
      using Suc.IH [of "tl others" eventStore'] Inr c
      by (auto split: prod.splits)
  qed
qed

lemma stream_at_shift:
  "stream_at (tl others) (other_writers others eventStore streamId) streamId k =
   stream_at others eventStore streamId (Suc k)"
  by (cases others) (simp_all add: stream_at_def other_writers_def)

lemma append_rejected_shift:
  "append_rejected evolveFn initial (tl others) (other_writers others eventStore streamId) streamId commandFn k =
   append_rejected evolveFn initial others eventStore streamId commandFn (Suc k)"
proof (cases others)
  case Nil
  then show ?thesis by (simp add: append_rejected_def)
next
  case (Cons written later)
  have "stream_at later (other_writers (written # later) eventStore streamId) streamId k =
        stream_at (written # later) eventStore streamId (Suc k)"
    using stream_at_shift [of "written # later" eventStore streamId k] by simp
  then show ?thesis unfolding Cons by (simp add: append_rejected_def)
qed

lemma cycle_outcome_shift:
  "cycle_outcome evolveFn initial (tl others) (other_writers others eventStore streamId) streamId commandFn k =
   cycle_outcome evolveFn initial others eventStore streamId commandFn (Suc k)"
proof -
  have s: "stream_at (tl others) (other_writers others eventStore streamId) streamId k =
           stream_at others eventStore streamId (Suc k)"
    by (rule stream_at_shift)
  have u: "(other_writers others eventStore streamId)
             \<lparr> streams := (streams (other_writers others eventStore streamId)) (streamId := v) \<rparr> =
           eventStore \<lparr> streams := (streams eventStore) (streamId := v) \<rparr>" for v
    by (cases others) (simp_all add: other_writers_def)
  show ?thesis
    unfolding cycle_outcome_def s u by (rule refl)
qed

text \<open>One cycle: a rejected append leaves the conflict, any other cycle ends the handler.\<close>

lemma load_decide_append_cases:
  "load_decide_append evolveFn initial others eventStore streamId commandFn =
   (if append_rejected evolveFn initial others eventStore streamId commandFn 0
    then Inr (ConcurrencyError ''expected version conflict'', other_writers others eventStore streamId)
    else Inl (cycle_outcome evolveFn initial others eventStore streamId commandFn 0))"
proof (cases "commandFn (foldl evolveFn initial (streams eventStore streamId))")
  case (Inl failure)
  then show ?thesis
    by (simp add: load_decide_append_def readStream_def append_rejected_def cycle_outcome_def
        stream_at_def)
next
  case (Inr newEvents)
  show ?thesis
  proof (cases "newEvents = []")
    case True
    with Inr show ?thesis
      by (simp add: load_decide_append_def readStream_def append_rejected_def cycle_outcome_def
          stream_at_def)
  next
    case False
    show ?thesis
    proof (cases others)
      case Nil
      with Inr False show ?thesis
        by (simp add: load_decide_append_def readStream_def append_rejected_def cycle_outcome_def
            stream_at_def other_writers_def appendToStream_def)
    next
      case (Cons written later)
      with Inr False show ?thesis
        by (simp add: load_decide_append_def readStream_def append_rejected_def cycle_outcome_def
            stream_at_def other_writers_def appendToStream_def)
    qed
  qed
qed

lemma CommandHandler_conflict:
  assumes "\<forall>k \<le> retries. append_rejected evolveFn initial others eventStore streamId commandFn k"
  shows "CommandHandler evolveFn initial retries others eventStore streamId commandFn =
         (Inl (ConcurrencyError ''expected version conflict''), retries + 1)"
  using assms
proof (induction retries arbitrary: others eventStore)
  case 0
  then show ?case by (simp add: load_decide_append_cases)
next
  case (Suc retries)
  have 0: "append_rejected evolveFn initial others eventStore streamId commandFn 0"
    using Suc.prems by simp
  have "\<forall>k \<le> retries. append_rejected evolveFn initial (tl others)
          (other_writers others eventStore streamId) streamId commandFn k"
    using Suc.prems by (simp add: append_rejected_shift)
  then have "CommandHandler evolveFn initial retries (tl others)
       (other_writers others eventStore streamId) streamId commandFn =
     (Inl (ConcurrencyError ''expected version conflict''), retries + 1)"
    by (rule Suc.IH)
  then show ?case
    using 0 by (simp add: load_decide_append_cases)
qed

lemma CommandHandler_first_accepted:
  assumes "k \<le> retries"
    and "\<forall>j < k. append_rejected evolveFn initial others eventStore streamId commandFn j"
    and "\<not> append_rejected evolveFn initial others eventStore streamId commandFn k"
  shows "CommandHandler evolveFn initial retries others eventStore streamId commandFn =
         (cycle_outcome evolveFn initial others eventStore streamId commandFn k, k + 1)"
  using assms
proof (induction k arbitrary: retries others eventStore)
  case 0
  then show ?case
    by (cases retries) (simp_all add: load_decide_append_cases)
next
  case (Suc k)
  obtain retries' where r: "retries = Suc retries'" and k: "k \<le> retries'"
    using Suc.prems(1) by (cases retries) simp_all
  have 0: "append_rejected evolveFn initial others eventStore streamId commandFn 0"
    using Suc.prems(2) by simp
  have a: "\<forall>j < k. append_rejected evolveFn initial (tl others)
          (other_writers others eventStore streamId) streamId commandFn j"
    using Suc.prems(2) by (simp add: append_rejected_shift)
  have n: "\<not> append_rejected evolveFn initial (tl others)
          (other_writers others eventStore streamId) streamId commandFn k"
    using Suc.prems(3) by (simp add: append_rejected_shift)
  have "CommandHandler evolveFn initial retries' (tl others)
       (other_writers others eventStore streamId) streamId commandFn =
     (cycle_outcome evolveFn initial (tl others) (other_writers others eventStore streamId)
        streamId commandFn k, k + 1)"
    using k a n by (rule Suc.IH)
  then show ?case
    using 0 unfolding r by (simp add: load_decide_append_cases cycle_outcome_shift)
qed

text \<open>
  C9. The command handler runs the load-decide-append cycle at most \<open>retries + 1\<close>
  times, whatever the decision is and whatever the other writers do: it never retries
  without bound. When the append is rejected in each of these cycles, because another
  writer advanced the stream while the decision had events to append, the handler
  fails with the conflict error after exactly \<open>retries + 1\<close> cycles; that error is a
  constructor of its own, distinct from the validation and the domain errors. When the
  append is rejected in the first \<open>k\<close> cycles, with \<open>k\<close> at most \<open>retries\<close>, and not in
  the next one, the handler ends after \<open>k + 1\<close> cycles with the outcome of that cycle.
  The number of retries is the framework's: \<^verbatim>\<open>api.ts\<close> passes no option for it, and the
  statement holds for every number.
\<close>

theorem CommandHandler_bounded_retry:
  "snd (CommandHandler evolveFn initial retries others eventStore streamId commandFn) \<le> retries + 1 \<and>
   ((\<forall>k \<le> retries. append_rejected evolveFn initial others eventStore streamId commandFn k) \<longrightarrow>
      CommandHandler evolveFn initial retries others eventStore streamId commandFn =
        (Inl (ConcurrencyError ''expected version conflict''), retries + 1)) \<and>
   (\<forall>k \<le> retries.
      (\<forall>j < k. append_rejected evolveFn initial others eventStore streamId commandFn j) \<and>
      \<not> append_rejected evolveFn initial others eventStore streamId commandFn k \<longrightarrow>
      CommandHandler evolveFn initial retries others eventStore streamId commandFn =
        (cycle_outcome evolveFn initial others eventStore streamId commandFn k, k + 1)) \<and>
   (\<forall>msg. ConcurrencyError ''expected version conflict'' \<noteq> ValidationError msg \<and>
          ConcurrencyError ''expected version conflict'' \<noteq> IllegalStateError msg)"
proof (intro conjI allI impI)
  show "snd (CommandHandler evolveFn initial retries others eventStore streamId commandFn) \<le> retries + 1"
    by (rule CommandHandler_cycles)
next
  assume "\<forall>k \<le> retries. append_rejected evolveFn initial others eventStore streamId commandFn k"
  then show "CommandHandler evolveFn initial retries others eventStore streamId commandFn =
        (Inl (ConcurrencyError ''expected version conflict''), retries + 1)"
    by (rule CommandHandler_conflict)
next
  fix k
  assume "k \<le> retries"
    and "(\<forall>j < k. append_rejected evolveFn initial others eventStore streamId commandFn j) \<and>
         \<not> append_rejected evolveFn initial others eventStore streamId commandFn k"
  then show "CommandHandler evolveFn initial retries others eventStore streamId commandFn =
        (cycle_outcome evolveFn initial others eventStore streamId commandFn k, k + 1)"
    using CommandHandler_first_accepted [of k retries evolveFn initial others eventStore streamId commandFn]
    by simp
qed simp_all

theorem CommandHandler_bounded_retry_witness:
  "append_rejected account_evolve Account_NotExisting
     [ [PaymentRecorded ''p1'' (Finite 10)], [PaymentRecorded ''p2'' (Finite 10)],
      [PaymentRecorded ''p3'' (Finite 10)] ]
     checked_in_store ''g1-r1-2026-11-03''
     (recordCharge (RecordCharge ''c1'' ''g1-r1-2026-11-03'' (Finite 50) 1793700000001)) 0 \<and>
   append_rejected account_evolve Account_NotExisting
     [ [PaymentRecorded ''p1'' (Finite 10)], [PaymentRecorded ''p2'' (Finite 10)],
      [PaymentRecorded ''p3'' (Finite 10)] ]
     checked_in_store ''g1-r1-2026-11-03''
     (recordCharge (RecordCharge ''c1'' ''g1-r1-2026-11-03'' (Finite 50) 1793700000001)) 1 \<and>
   append_rejected account_evolve Account_NotExisting
     [ [PaymentRecorded ''p1'' (Finite 10)], [PaymentRecorded ''p2'' (Finite 10)],
      [PaymentRecorded ''p3'' (Finite 10)] ]
     checked_in_store ''g1-r1-2026-11-03''
     (recordCharge (RecordCharge ''c1'' ''g1-r1-2026-11-03'' (Finite 50) 1793700000001)) 2 \<and>
   CommandHandler account_evolve Account_NotExisting 2
     [ [PaymentRecorded ''p1'' (Finite 10)], [PaymentRecorded ''p2'' (Finite 10)],
      [PaymentRecorded ''p3'' (Finite 10)] ]
     checked_in_store ''g1-r1-2026-11-03''
     (recordCharge (RecordCharge ''c1'' ''g1-r1-2026-11-03'' (Finite 50) 1793700000001))
   = (Inl (ConcurrencyError ''expected version conflict''), 3) \<and>
   append_rejected account_evolve Account_NotExisting [ [PaymentRecorded ''p1'' (Finite 10)] ]
     checked_in_store ''g1-r1-2026-11-03''
     (recordCharge (RecordCharge ''c1'' ''g1-r1-2026-11-03'' (Finite 50) 1793700000001)) 0 \<and>
   \<not> append_rejected account_evolve Account_NotExisting [ [PaymentRecorded ''p1'' (Finite 10)] ]
     checked_in_store ''g1-r1-2026-11-03''
     (recordCharge (RecordCharge ''c1'' ''g1-r1-2026-11-03'' (Finite 50) 1793700000001)) 1 \<and>
   CommandHandler account_evolve Account_NotExisting 2 [ [PaymentRecorded ''p1'' (Finite 10)] ]
     checked_in_store ''g1-r1-2026-11-03''
     (recordCharge (RecordCharge ''c1'' ''g1-r1-2026-11-03'' (Finite 50) 1793700000001))
   = (Inr ([ChargeRecorded ''c1'' (Finite 50)],
       checked_in_store \<lparr> streams := (streams checked_in_store)
         (''g1-r1-2026-11-03'' :=
            [GuestCheckedIn ''g1-r1-2026-11-03'' ''g1'' ''r1'' 1793700000000,
             PaymentRecorded ''p1'' (Finite 10), ChargeRecorded ''c1'' (Finite 50)]) \<rparr>), 2)"
proof -
  let ?others = "[ [PaymentRecorded ''p1'' (Finite 10)], [PaymentRecorded ''p2'' (Finite 10)],
                  [PaymentRecorded ''p3'' (Finite 10)] ]"
  let ?once = "[ [PaymentRecorded ''p1'' (Finite 10)] ]"
  let ?i = "''g1-r1-2026-11-03''"
  let ?f = "recordCharge (RecordCharge ''c1'' ?i (Finite 50) 1793700000001)"
  let ?db = "checked_in_store :: number database"
  have a0: "append_rejected account_evolve Account_NotExisting ?others ?db ?i ?f 0"
    and a1: "append_rejected account_evolve Account_NotExisting ?others ?db ?i ?f 1"
    and a2: "append_rejected account_evolve Account_NotExisting ?others ?db ?i ?f 2"
    by (simp_all add: append_rejected_def stream_at_def checked_in_store_def)
  have b0: "append_rejected account_evolve Account_NotExisting ?once ?db ?i ?f 0"
    and b1: "\<not> append_rejected account_evolve Account_NotExisting ?once ?db ?i ?f 1"
    by (simp_all add: append_rejected_def stream_at_def checked_in_store_def)
  have every: "\<forall>k \<le> 2. append_rejected account_evolve Account_NotExisting ?others ?db ?i ?f k"
  proof (intro allI impI)
    fix k :: nat
    assume "k \<le> 2"
    then consider "k = 0" | "k = 1" | "k = 2"
      by linarith
    then show "append_rejected account_evolve Account_NotExisting ?others ?db ?i ?f k"
    proof cases
      case 1
      then show ?thesis using a0 by simp
    next
      case 2
      then show ?thesis using a1 by simp
    next
      case 3
      then show ?thesis using a2 by simp
    qed
  qed
  have first: "\<forall>j < 1. append_rejected account_evolve Account_NotExisting ?once ?db ?i ?f j"
    using b0 by simp
  have 1: "CommandHandler account_evolve Account_NotExisting 2 ?others ?db ?i ?f
           = (Inl (ConcurrencyError ''expected version conflict''), 3)"
    using CommandHandler_bounded_retry [of account_evolve Account_NotExisting 2 ?others ?db ?i ?f,
        THEN conjunct2, THEN conjunct1, THEN mp, OF every]
    by simp
  have "CommandHandler account_evolve Account_NotExisting 2 ?once ?db ?i ?f
        = (cycle_outcome account_evolve Account_NotExisting ?once ?db ?i ?f 1, 1 + 1)"
    using CommandHandler_bounded_retry [of account_evolve Account_NotExisting 2 ?once ?db ?i ?f,
        THEN conjunct2, THEN conjunct2, THEN conjunct1, THEN spec, of 1] first b1
    by simp
  then have 2: "CommandHandler account_evolve Account_NotExisting 2 ?once ?db ?i ?f
        = (Inr ([ChargeRecorded ''c1'' (Finite 50)],
             ?db \<lparr> streams := (streams ?db)
               (?i := [GuestCheckedIn ?i ''g1'' ''r1'' 1793700000000,
                       PaymentRecorded ''p1'' (Finite 10), ChargeRecorded ''c1'' (Finite 50)]) \<rparr>), 2)"
    by (simp add: cycle_outcome_def stream_at_def checked_in_store_def)
  from a0 a1 a2 1 b0 b1 2 show ?thesis
    by (intro conjI)
qed


end
